theory Spec2Isabelle
  imports Complex_Main "HOL-Library.Char_ord" "HOL-Library.List_Lexorder"
begin

section \<open>The DCA platform API (src/dca-api.js)\<close>

text \<open>
  A \<open>Map\<close> is a list of its values in insertion order, the key of an entry being its
  identifier field (\<open>dcaId\<close>, \<open>caseId\<close>), as in the tables of the source. The clock
  (\<open>new Date()\<close>), the local hour and \<open>Math.random()\<close> are parameters.
\<close>

subsection \<open>Numbers\<close>

text \<open>
  A JavaScript number is \<open>NaN\<close>, an infinity or a finite number. The numbers that come from
  the request body, which no handler validates, and every number computed from them are
  \<open>jsnum\<close>; the fields of the registry, the counters and the millisecond timestamps are
  numbers on every path and are \<open>real\<close> and \<open>int\<close>. The arithmetic and the comparisons
  on finite numbers are exact: the rounding of a sum or product to a double is modelled
  only where a number is formatted (see below), and an overflow is not modelled.
\<close>

datatype jsnum = NaN | NegInf | Num real | PosInf

text \<open>\<open>x > y\<close>: false when either side is \<open>NaN\<close>.\<close>

fun gtj :: "jsnum \<Rightarrow> jsnum \<Rightarrow> bool" where
  "gtj NaN y = False"
| "gtj x NaN = False"
| "gtj (Num a) (Num b) = (a > b)"
| "gtj PosInf PosInf = False"
| "gtj PosInf y = True"
| "gtj x PosInf = False"
| "gtj NegInf y = False"
| "gtj (Num a) NegInf = True"

text \<open>\<open>Math.min\<close>, \<open>Math.max\<close>, negation, \<open>+\<close>, \<open>*\<close>, and \<open>/\<close> by a positive constant.\<close>

definition jmin :: "jsnum \<Rightarrow> jsnum \<Rightarrow> jsnum" where
  "jmin x y = (if x = NaN \<or> y = NaN then NaN else if gtj x y then y else x)"

definition jmax :: "jsnum \<Rightarrow> jsnum \<Rightarrow> jsnum" where
  "jmax x y = (if x = NaN \<or> y = NaN then NaN else if gtj y x then y else x)"

fun jneg :: "jsnum \<Rightarrow> jsnum" where
  "jneg NaN = NaN"
| "jneg NegInf = PosInf"
| "jneg (Num a) = Num (- a)"
| "jneg PosInf = NegInf"

fun jplus :: "jsnum \<Rightarrow> jsnum \<Rightarrow> jsnum" where
  "jplus NaN y = NaN"
| "jplus x NaN = NaN"
| "jplus (Num a) (Num b) = Num (a + b)"
| "jplus PosInf NegInf = NaN"
| "jplus NegInf PosInf = NaN"
| "jplus (Num a) y = y"
| "jplus x y = x"

fun jtimes :: "jsnum \<Rightarrow> jsnum \<Rightarrow> jsnum" where
  "jtimes NaN y = NaN"
| "jtimes x NaN = NaN"
| "jtimes (Num a) (Num b) = Num (a * b)"
| "jtimes x y =
     (if x = Num 0 \<or> y = Num 0 then NaN
      else if gtj x (Num 0) = gtj y (Num 0) then PosInf else NegInf)"

fun jover :: "jsnum \<Rightarrow> real \<Rightarrow> jsnum" where
  "jover (Num a) k = Num (a / k)"
| "jover x k = x"

subsection \<open>Data\<close>

datatype priority = CRITICAL | HIGH | MEDIUM | LOW

datatype status = RECEIVED | PRIORITIZED | ALLOCATED | IN_PROGRESS | ESCALATED | RESOLVED

datatype role = ADMIN | DCA | FEDEX

datatype error = Unauthorized | CaseNotFound

record dca =
  dcaId :: string
  name :: string
  capacity :: int
  currentLoad :: int
  historicalRecoveryRate :: real
  specialization :: "string list"
  geoRegion :: string
  complianceScore :: real
  cases :: "string list"
  slaBreaches :: int
  recoveredAmount :: real
  averageResolutionDays :: real

record sla =
  firstActionHours :: int
  followUpDays :: int
  resolutionDays :: int

record deadlines =
  firstAction :: int
  followUp :: int
  resolution :: int

record candidate =
  cd_dcaId :: string
  cd_dcaScore :: real
  cd_priorityFactor :: real
  cd_finalScore :: jsnum

datatype detail =
    Text string
  | AllocatedTo string jsnum
  | InteractionOf string string
  | DocumentOf string
  | EscalatedTo string string
  | ResolvedWith string "real option" string

record audit =
  action :: string
  user :: string
  timestamp :: int
  details :: detail

record interaction =
  i_type :: string
  i_details :: string
  i_result :: string
  i_timestamp :: int
  i_dcaId :: "string option"

record dispute =
  reason :: string
  createdAt :: int
  d_status :: string

record document =
  docId :: string
  fileName :: string
  doc_type :: string
  uploadedBy :: string
  uploadedAt :: int
  contentPreview :: string

record caseData =
  caseId :: string
  debtAmount :: jsnum
  debtAge :: jsnum
  caseGeoRegion :: string
  status :: status
  riskLevel :: nat
  recoveryProbability :: jsnum
  priority :: priority
  allocatedDCA :: "string option"
  allocationScore :: "jsnum option"
  allocationCandidates :: "candidate list option"
  allocationChosen :: "(string \<times> jsnum) option"
  slaDeadlines :: "deadlines option"
  slaBreached :: bool
  interactions :: "interaction list"
  documents :: "document list"
  disputes :: "dispute list"
  auditTrail :: "audit list"
  resolutionType :: "string option"
  caseRecoveredAmount :: "real option"
  resolvedAt :: "int option"

record session =
  email :: string
  s_role :: role
  s_dcaId :: "string option"

record state =
  caseRegistry :: "caseData list"
  dcaProfiles :: "dca list"
  caseIdCounter :: nat

text \<open>The registry of agents the server starts with.\<close>

definition initialDcaProfiles :: "dca list" where
  "initialDcaProfiles =
    [\<lparr>dcaId = ''DCA-001'', name = ''John Smith'', capacity = 5, currentLoad = 0,
       historicalRecoveryRate = 82 / 100, specialization = [''High-Value'', ''Corporate''],
       geoRegion = ''North-East'', complianceScore = 95 / 100, cases = [], slaBreaches = 0,
       recoveredAmount = 450000, averageResolutionDays = 22\<rparr>,
     \<lparr>dcaId = ''DCA-002'', name = ''Sarah Johnson'', capacity = 5, currentLoad = 0,
       historicalRecoveryRate = 78 / 100, specialization = [''Small-Medium'', ''Individuals''],
       geoRegion = ''South-West'', complianceScore = 88 / 100, cases = [], slaBreaches = 1,
       recoveredAmount = 320000, averageResolutionDays = 28\<rparr>,
     \<lparr>dcaId = ''DCA-003'', name = ''Mike Davis'', capacity = 5, currentLoad = 0,
       historicalRecoveryRate = 75 / 100, specialization = [''Disputed'', ''Complex''],
       geoRegion = ''Central'', complianceScore = 92 / 100, cases = [], slaBreaches = 0,
       recoveredAmount = 280000, averageResolutionDays = 35\<rparr>,
     \<lparr>dcaId = ''DCA-004'', name = ''Emma Wilson'', capacity = 5, currentLoad = 0,
       historicalRecoveryRate = 80 / 100, specialization = [''Collections'', ''Escalations''],
       geoRegion = ''West-Coast'', complianceScore = 90 / 100, cases = [], slaBreaches = 0,
       recoveredAmount = 410000, averageResolutionDays = 24\<rparr>]"

definition initialState :: state where
  "initialState = \<lparr>caseRegistry = [], dcaProfiles = initialDcaProfiles, caseIdCounter = 1000\<rparr>"

fun slaConfig :: "priority \<Rightarrow> sla" where
  "slaConfig CRITICAL = \<lparr>firstActionHours = 24, followUpDays = 2, resolutionDays = 7\<rparr>"
| "slaConfig HIGH = \<lparr>firstActionHours = 48, followUpDays = 3, resolutionDays = 15\<rparr>"
| "slaConfig MEDIUM = \<lparr>firstActionHours = 72, followUpDays = 4, resolutionDays = 20\<rparr>"
| "slaConfig LOW = \<lparr>firstActionHours = 96, followUpDays = 7, resolutionDays = 30\<rparr>"

subsection \<open>Number formatting\<close>

text \<open>
  \<open>Number(v.toFixed(f))\<close> for a finite double \<open>v\<close>: the decimal with \<open>f\<close> fraction digits
  nearest to \<open>v\<close>; of two equally near ones the larger in magnitude.
\<close>

definition toFixed :: "nat \<Rightarrow> real \<Rightarrow> real" where
  "toFixed f x =
     (if x < 0 then - (of_int \<lfloor>- x * 10 ^ f + 1 / 2\<rfloor> / 10 ^ f)
      else of_int \<lfloor>x * 10 ^ f + 1 / 2\<rfloor> / 10 ^ f)"

text \<open>
  The code formats the double it holds. That double is within a rounding error of the exact
  value of this model, and at a tie it decides the last digit: the quotient 0.15 is held as
  0.1499... and printed as 0.1. The double held for an exact value is the parameter \<open>dbl\<close>
  of the functions that format a number; nothing is assumed of it. \<open>NaN\<close> and the infinities
  are printed by name and read back as they are.
\<close>

definition toFixedJ :: "(real \<Rightarrow> real) \<Rightarrow> nat \<Rightarrow> jsnum \<Rightarrow> jsnum" where
  "toFixedJ dbl f x =
     (case x of
        NaN \<Rightarrow> NaN
      | NegInf \<Rightarrow> NegInf
      | Num v \<Rightarrow> Num (toFixed f (dbl v))
      | PosInf \<Rightarrow> PosInf)"

text \<open>
  The double held for the quotient of two doubles: a division rounds its exact result, so
  it keeps the sign of the quotient and is zero for a zero quotient.
\<close>

definition heldQuotient :: "(real \<Rightarrow> real) \<Rightarrow> real \<Rightarrow> real \<Rightarrow> real" where
  "heldQuotient dbl a b =
     (let q = a / b in if q = 0 then 0 else if q < 0 then - \<bar>dbl q\<bar> else \<bar>dbl q\<bar>)"

subsection \<open>Risk classification\<close>

definition assessRisk :: "jsnum \<Rightarrow> jsnum \<Rightarrow> nat" where
  "assessRisk amount age =
     (if gtj amount (Num 100000) \<or> gtj age (Num 180) then 0
      else if gtj amount (Num 50000) \<or> gtj age (Num 120) then 1
      else if gtj amount (Num 20000) \<or> gtj age (Num 60) then 2
      else 3)"

text \<open>The array \<open>['CRITICAL', 'HIGH', 'MEDIUM', 'LOW']\<close> indexed by a risk level.\<close>

definition priorityNames :: "priority list" where
  "priorityNames = [CRITICAL, HIGH, MEDIUM, LOW]"

definition calculateRecoveryProbability :: "jsnum \<Rightarrow> jsnum \<Rightarrow> real \<Rightarrow> jsnum" where
  "calculateRecoveryProbability amount age random =
     (let ageFactor = jmin (jover age 360) (Num (1 / 2));
          amountFactor = jmin (jover amount 500000) (Num (4 / 10));
          base = jtimes (jplus (Num 1) (jneg ageFactor)) (jplus (Num 1) (jneg amountFactor));
          noise = random * (15 / 100) - 75 / 1000
      in jmax (Num (2 / 10)) (jmin (Num 1) (jplus base (Num noise))))"

subsection \<open>Allocation\<close>

definition specializationMatch :: "caseData \<Rightarrow> dca \<Rightarrow> real" where
  "specializationMatch c d =
     (if priority c = CRITICAL \<and> ''High-Value'' \<in> set (specialization d) then 1 else 7 / 10)"

definition geoMatch :: "caseData \<Rightarrow> dca \<Rightarrow> real" where
  "geoMatch c d = (if geoRegion d = caseGeoRegion c then 1 else 8 / 10)"

text \<open>
  Every agent of the registry has capacity 5, and an agent that is scored has a load below
  its capacity: the division is never by zero.
\<close>

definition loadPenalty :: "dca \<Rightarrow> real" where
  "loadPenalty d = real_of_int (currentLoad d) / real_of_int (capacity d)"

definition complianceRisk :: "dca \<Rightarrow> real" where
  "complianceRisk d = 1 - complianceScore d"

definition dcaScore :: "caseData \<Rightarrow> dca \<Rightarrow> real" where
  "dcaScore c d =
     (3 / 10) * historicalRecoveryRate d + (25 / 100) * specializationMatch c d
       + (2 / 10) * geoMatch c d - (15 / 100) * loadPenalty d - (1 / 10) * complianceRisk d"

fun priorityFactor :: "priority \<Rightarrow> real" where
  "priorityFactor CRITICAL = 15 / 10"
| "priorityFactor HIGH = 13 / 10"
| "priorityFactor MEDIUM = 1"
| "priorityFactor LOW = 8 / 10"

definition finalScore :: "caseData \<Rightarrow> dca \<Rightarrow> jsnum" where
  "finalScore c d =
     jtimes (jtimes (recoveryProbability c) (Num (dcaScore c d))) (Num (priorityFactor (priority c)))"

text \<open>
  The state of the \<open>forEach\<close> loop: \<open>bestDCA\<close> is the position in the registry of the agent
  the loop keeps a reference to, \<open>None\<close> for \<open>null\<close>.
\<close>

record loop =
  bestDCA :: "nat option"
  bestScore :: jsnum
  candidateDetails :: "candidate list"

definition visit :: "(real \<Rightarrow> real) \<Rightarrow> caseData \<Rightarrow> nat \<Rightarrow> dca \<Rightarrow> loop \<Rightarrow> loop" where
  "visit dbl c i d l =
     (if currentLoad d \<ge> capacity d then l
      else
        let l' = l\<lparr>candidateDetails := candidateDetails l @
                  [\<lparr>cd_dcaId = dcaId d, cd_dcaScore = toFixed 4 (dbl (dcaScore c d)),
                    cd_priorityFactor = priorityFactor (priority c),
                    cd_finalScore = toFixedJ dbl 6 (finalScore c d)\<rparr>]\<rparr>
        in if gtj (finalScore c d) (bestScore l)
           then l'\<lparr>bestScore := finalScore c d, bestDCA := Some i\<rparr>
           else l')"

fun forEachDca :: "(real \<Rightarrow> real) \<Rightarrow> caseData \<Rightarrow> nat \<Rightarrow> dca list \<Rightarrow> loop \<Rightarrow> loop" where
  "forEachDca dbl c i [] l = l"
| "forEachDca dbl c i (d # ds) l = forEachDca dbl c (Suc i) ds (visit dbl c i d l)"

definition scan :: "(real \<Rightarrow> real) \<Rightarrow> caseData \<Rightarrow> dca list \<Rightarrow> loop" where
  "scan dbl c reg =
     forEachDca dbl c 0 reg \<lparr>bestDCA = None, bestScore = NegInf, candidateDetails = []\<rparr>"

definition setDeadlines :: "int \<Rightarrow> caseData \<Rightarrow> deadlines" where
  "setDeadlines now c =
     (let riskKey = priorityNames ! assessRisk (debtAmount c) (debtAge c);
          s = slaConfig riskKey
      in \<lparr>firstAction = now + firstActionHours s * 3600000,
          followUp = now + followUpDays s * 24 * 3600000,
          resolution = now + resolutionDays s * 24 * 3600000\<rparr>)"

text \<open>
  \<open>allocateCaseIntelligently\<close> on the case object and the registry; both are mutated in
  place by the source and returned here. Without a \<open>bestDCA\<close> nothing is written.
\<close>

definition allocateCaseIntelligently ::
  "(real \<Rightarrow> real) \<Rightarrow> int \<Rightarrow> dca list \<Rightarrow> caseData \<Rightarrow> dca list \<times> caseData" where
  "allocateCaseIntelligently dbl now reg c =
     (case bestDCA (scan dbl c reg) of
        None \<Rightarrow> (reg, c)
      | Some i \<Rightarrow>
          let best = reg ! i;
              score = bestScore (scan dbl c reg);
              c' = c\<lparr>allocatedDCA := Some (dcaId best),
                     allocationScore := Some (toFixedJ dbl 4 score),
                     allocationCandidates := Some (candidateDetails (scan dbl c reg)),
                     allocationChosen := Some (dcaId best, toFixedJ dbl 6 score),
                     status := ALLOCATED,
                     slaDeadlines := Some (setDeadlines now c),
                     auditTrail := auditTrail c @
                       [\<lparr>action = ''CASE_ALLOCATED'', user = ''SYSTEM'', timestamp = now,
                         details = AllocatedTo (dcaId best) (toFixedJ dbl 4 score)\<rparr>]\<rparr>;
              reg' = reg[i := best\<lparr>currentLoad := currentLoad best + 1,
                                   cases := cases best @ [caseId c]\<rparr>]
          in (reg', c'))"

subsection \<open>Intake\<close>

text \<open>
  The request body of an intake. The handler does not validate it: \<open>debtAmount\<close> and
  \<open>debtAge\<close> are what the comparisons and divisions of the code read from the two fields,
  \<open>NaN\<close> for a field that is missing or not numeric. The fields \<open>trackingNumber\<close>,
  \<open>debtor\<close>, \<open>phone\<close>, \<open>email\<close> and \<open>notes\<close> are stored on the case and never read by an
  operation; they are left out.
\<close>

record ingestBody =
  b_debtAmount :: jsnum
  b_debtAge :: jsnum
  b_geoRegion :: "string option"

text \<open>The decimal numeral of a counter value, as the template literal prints it.\<close>

fun string_of_nat :: "nat \<Rightarrow> string" where
  "string_of_nat n =
     (if n < 10 then [''0123456789'' ! n]
      else string_of_nat (n div 10) @ [''0123456789'' ! (n mod 10)])"

declare string_of_nat.simps [simp del]

text \<open>The object literal \<open>newCase\<close> of the intake handler.\<close>

definition newCase :: "session \<Rightarrow> ingestBody \<Rightarrow> int \<Rightarrow> real \<Rightarrow> nat \<Rightarrow> caseData" where
  "newCase s b now random n =
     (let rl = assessRisk (b_debtAmount b) (b_debtAge b)
      in \<lparr>caseId = ''FDX-'' @ string_of_nat n,
          debtAmount = b_debtAmount b,
          debtAge = b_debtAge b,
          caseGeoRegion = (case b_geoRegion b of None \<Rightarrow> ''Unknown''
                           | Some g \<Rightarrow> if g = [] then ''Unknown'' else g),
          status = RECEIVED,
          riskLevel = rl,
          recoveryProbability = calculateRecoveryProbability (b_debtAmount b) (b_debtAge b) random,
          priority = priorityNames ! rl,
          allocatedDCA = None,
          allocationScore = None,
          allocationCandidates = None,
          allocationChosen = None,
          slaDeadlines = None,
          slaBreached = False,
          interactions = [],
          documents = [],
          disputes = [],
          auditTrail = [\<lparr>action = ''CASE_CREATED'', user = email s, timestamp = now,
                         details = Text ''Case received from FedEx''\<rparr>],
          resolutionType = None,
          caseRecoveredAmount = None,
          resolvedAt = None\<rparr>)"

definition ingest ::
  "(real \<Rightarrow> real) \<Rightarrow> session option \<Rightarrow> ingestBody \<Rightarrow> int \<Rightarrow> real \<Rightarrow> state \<Rightarrow> error + state" where
  "ingest dbl sess b now random st =
     (case sess of
        None \<Rightarrow> Inl Unauthorized
      | Some s \<Rightarrow>
          if s_role s \<noteq> FEDEX then Inl Unauthorized
          else
            let n = Suc (caseIdCounter st);
                c = newCase s b now random n;
                (reg', c') = allocateCaseIntelligently dbl now (dcaProfiles st) c
            in Inr \<lparr>caseRegistry = caseRegistry st @ [c'], dcaProfiles = reg', caseIdCounter = n\<rparr>)"

subsection \<open>Lifecycle handlers\<close>

text \<open>
  \<open>caseRegistry.get\<close>, and the mutation of the object that \<open>caseRegistry.get\<close> or
  \<open>dcaProfiles.get\<close> finds: the first entry with the key, which is the only one in a \<open>Map\<close>.
\<close>

definition getCase :: "string \<Rightarrow> caseData list \<Rightarrow> caseData option" where
  "getCase k cs = find (\<lambda>c. caseId c = k) cs"

fun updateCase :: "string \<Rightarrow> (caseData \<Rightarrow> caseData) \<Rightarrow> caseData list \<Rightarrow> caseData list" where
  "updateCase k f [] = []"
| "updateCase k f (c # cs) = (if caseId c = k then f c # cs else c # updateCase k f cs)"

fun updateDca :: "string \<Rightarrow> (dca \<Rightarrow> dca) \<Rightarrow> dca list \<Rightarrow> dca list" where
  "updateDca k f [] = []"
| "updateDca k f (d # ds) = (if dcaId d = k then f d # ds else d # updateDca k f ds)"

definition isWithinPermittedHours :: "nat \<Rightarrow> bool" where
  "isWithinPermittedHours hour = (hour \<ge> 9 \<and> hour \<le> 18)"

definition interact :: "session \<Rightarrow> string \<Rightarrow> string \<Rightarrow> string \<Rightarrow> int \<Rightarrow> nat \<Rightarrow> caseData \<Rightarrow> caseData" where
  "interact s ty det res now hour c =
     (let c1 = c\<lparr>interactions := interactions c @
                 [\<lparr>i_type = ty, i_details = det, i_result = res, i_timestamp = now,
                   i_dcaId = s_dcaId s\<rparr>]\<rparr>;
          c2 = (if ty = ''CALL'' \<and> \<not> isWithinPermittedHours hour
                then c1\<lparr>auditTrail := auditTrail c1 @
                       [\<lparr>action = ''SOP_VIOLATION'', user = email s, timestamp = now,
                         details = Text ''Contact outside permitted hours''\<rparr>]\<rparr>
                else c1);
          c3 = (if res = ''DISPUTE''
                then c2\<lparr>disputes := disputes c2 @
                       [\<lparr>reason = det, createdAt = now, d_status = ''PENDING''\<rparr>]\<rparr>
                else c2)
      in c3\<lparr>status := IN_PROGRESS,
            auditTrail := auditTrail c3 @
              [\<lparr>action = ''INTERACTION_LOGGED'', user = email s, timestamp = now,
                details = InteractionOf ty res\<rparr>]\<rparr>)"

definition logInteraction ::
  "session option \<Rightarrow> string \<Rightarrow> string \<Rightarrow> string \<Rightarrow> string \<Rightarrow> int \<Rightarrow> nat \<Rightarrow> state \<Rightarrow> error + state" where
  "logInteraction sess k ty det res now hour st =
     (case sess of
        None \<Rightarrow> Inl Unauthorized
      | Some s \<Rightarrow>
          (case getCase k (caseRegistry st) of
             None \<Rightarrow> Inl CaseNotFound
           | Some c \<Rightarrow>
               Inr (st\<lparr>caseRegistry := updateCase k (interact s ty det res now hour) (caseRegistry st)\<rparr>)))"

definition escalated :: "session \<Rightarrow> string \<Rightarrow> string \<Rightarrow> int \<Rightarrow> caseData \<Rightarrow> caseData" where
  "escalated s rsn targetRole now c =
     c\<lparr>status := ESCALATED,
       auditTrail := auditTrail c @
         [\<lparr>action = ''ESCALATION'', user = email s, timestamp = now,
           details = EscalatedTo targetRole rsn\<rparr>]\<rparr>"

definition escalate ::
  "session option \<Rightarrow> string \<Rightarrow> string \<Rightarrow> string \<Rightarrow> int \<Rightarrow> state \<Rightarrow> error + state" where
  "escalate sess k rsn targetRole now st =
     (case sess of
        None \<Rightarrow> Inl Unauthorized
      | Some s \<Rightarrow>
          (case getCase k (caseRegistry st) of
             None \<Rightarrow> Inl CaseNotFound
           | Some c \<Rightarrow>
               Inr (st\<lparr>caseRegistry := updateCase k (escalated s rsn targetRole now) (caseRegistry st)\<rparr>)))"

text \<open>
  The amount of a resolution request is optional; \<open>recoveredAmount || 0\<close> and the test
  \<open>if (dca && recoveredAmount)\<close> treat an absent amount and \<open>0\<close> alike. The handler does
  not check the amount; a present amount is taken to be a finite number here.
\<close>

definition resolved :: "session \<Rightarrow> string \<Rightarrow> real option \<Rightarrow> string \<Rightarrow> int \<Rightarrow> caseData \<Rightarrow> caseData" where
  "resolved s rt amount notes now c =
     c\<lparr>status := RESOLVED,
       resolutionType := Some rt,
       caseRecoveredAmount := Some (case amount of None \<Rightarrow> 0 | Some a \<Rightarrow> a),
       resolvedAt := Some now,
       auditTrail := auditTrail c @
         [\<lparr>action = ''CASE_RESOLVED'', user = email s, timestamp = now,
           details = ResolvedWith rt amount notes\<rparr>]\<rparr>"

definition creditRecovery :: "caseData \<Rightarrow> real option \<Rightarrow> dca list \<Rightarrow> dca list" where
  "creditRecovery c amount reg =
     (case allocatedDCA c of
        None \<Rightarrow> reg
      | Some k \<Rightarrow>
          if k = [] then reg
          else (case amount of
                  None \<Rightarrow> reg
                | Some a \<Rightarrow>
                    if a = 0 then reg
                    else updateDca k (\<lambda>d. d\<lparr>recoveredAmount := recoveredAmount d + a\<rparr>) reg))"

definition resolve ::
  "session option \<Rightarrow> string \<Rightarrow> string \<Rightarrow> real option \<Rightarrow> string \<Rightarrow> int \<Rightarrow> state \<Rightarrow> error + state" where
  "resolve sess k rt amount notes now st =
     (case sess of
        None \<Rightarrow> Inl Unauthorized
      | Some s \<Rightarrow>
          (case getCase k (caseRegistry st) of
             None \<Rightarrow> Inl CaseNotFound
           | Some c \<Rightarrow>
               Inr (st\<lparr>caseRegistry := updateCase k (resolved s rt amount notes now) (caseRegistry st),
                       dcaProfiles := creditRecovery c amount (dcaProfiles st)\<rparr>)))"

text \<open>The random identifier of an uploaded document is a parameter.\<close>

definition documented ::
  "session \<Rightarrow> string \<Rightarrow> string \<Rightarrow> string \<Rightarrow> string \<Rightarrow> int \<Rightarrow> caseData \<Rightarrow> caseData" where
  "documented s newId fname ty content now c =
     c\<lparr>documents := documents c @
         [\<lparr>docId = newId, fileName = fname, doc_type = ty, uploadedBy = email s, uploadedAt = now,
           contentPreview = take 200 content\<rparr>],
       auditTrail := auditTrail c @
         [\<lparr>action = ''DOCUMENT_UPLOADED'', user = email s, timestamp = now,
           details = DocumentOf fname\<rparr>]\<rparr>"

definition logDocument ::
  "session option \<Rightarrow> string \<Rightarrow> string \<Rightarrow> string \<Rightarrow> string \<Rightarrow> string \<Rightarrow> int \<Rightarrow> state
     \<Rightarrow> error + state" where
  "logDocument sess k newId fname ty content now st =
     (case sess of
        None \<Rightarrow> Inl Unauthorized
      | Some s \<Rightarrow>
          (case getCase k (caseRegistry st) of
             None \<Rightarrow> Inl CaseNotFound
           | Some c \<Rightarrow>
               Inr (st\<lparr>caseRegistry := updateCase k (documented s newId fname ty content now) (caseRegistry st)\<rparr>)))"

subsection \<open>SLA monitoring\<close>

record slaEntry =
  e_caseId :: string
  e_priority :: priority
  e_allocatedDCA :: "string option"
  e_slaDeadlines :: deadlines
  breached :: bool
  hoursRemaining :: real

text \<open>The penalty of a breached case: the breach counter of its agent, when it has one.\<close>

definition penalise :: "caseData \<Rightarrow> dca list \<Rightarrow> dca list" where
  "penalise c reg =
     (case allocatedDCA c of
        None \<Rightarrow> reg
      | Some k \<Rightarrow>
          if k = [] then reg
          else updateDca k (\<lambda>d. d\<lparr>slaBreaches := slaBreaches d + 1\<rparr>) reg)"

text \<open>
  The \<open>forEach\<close> loop of the status query over the cases, in registry order: the cases and
  the agents as the loop leaves them, and the entries pushed to \<open>slaStatus\<close>.
\<close>

fun slaForEach ::
  "(real \<Rightarrow> real) \<Rightarrow> int \<Rightarrow> caseData list \<Rightarrow> dca list \<Rightarrow> caseData list \<times> dca list \<times> slaEntry list" where
  "slaForEach dbl now [] reg = ([], reg, [])"
| "slaForEach dbl now (c # cs) reg =
     (case slaDeadlines c of
        None \<Rightarrow> (case slaForEach dbl now cs reg of (cs', reg', es) \<Rightarrow> (c # cs', reg', es))
      | Some sd \<Rightarrow>
          if status c = RESOLVED
          then (case slaForEach dbl now cs reg of (cs', reg', es) \<Rightarrow> (c # cs', reg', es))
          else
            let br = now > resolution sd;
                c1 = (if br then c\<lparr>slaBreached := True\<rparr> else c);
                reg1 = (if br then penalise c reg else reg);
                e = \<lparr>e_caseId = caseId c, e_priority = priority c,
                     e_allocatedDCA = allocatedDCA c, e_slaDeadlines = sd, breached = br,
                     hoursRemaining =
                       toFixed 1 (max 0 (heldQuotient dbl (real_of_int (resolution sd - now)) 3600000))\<rparr>
            in (case slaForEach dbl now cs reg1 of (cs', reg', es) \<Rightarrow> (c1 # cs', reg', e # es)))"

definition slaStatus ::
  "(real \<Rightarrow> real) \<Rightarrow> session option \<Rightarrow> int \<Rightarrow> state \<Rightarrow> error + (state \<times> slaEntry list)" where
  "slaStatus dbl sess now st =
     (case sess of
        None \<Rightarrow> Inl Unauthorized
      | Some s \<Rightarrow>
          (case slaForEach dbl now (caseRegistry st) (dcaProfiles st) of
             (cs', reg', es) \<Rightarrow> Inr (st\<lparr>caseRegistry := cs', dcaProfiles := reg'\<rparr>, es)))"

section \<open>The queue-based intake variant (src/unnamed/part_000)\<close>

text \<open>
  The second server of the repository keeps a queue of pending cases and a table of
  workloads keyed by agent identifier. The amount and the age of a case are what the
  comparisons of \<open>prioritizeCase\<close> read from the two fields, as in the first server.
\<close>

record workload =
  w_capacity :: int
  current :: int
  w_cases :: "string list"

record qcase =
  q_caseId :: string
  q_debtAmount :: jsnum
  q_debtAge :: jsnum
  q_status :: status
  q_priority :: "priority option"
  q_allocatedDCA :: "string option"
  q_allocationScore :: "real option"
  q_recoveryProbability :: "real option"
  prioritizedAt :: "int option"
  allocatedAt :: "int option"

record qstate =
  q_caseRegistry :: "qcase list"
  dcaWorkload :: "(string \<times> workload) list"

definition initialDcaWorkload :: "(string \<times> workload) list" where
  "initialDcaWorkload =
     [(''DCA-001'', \<lparr>w_capacity = 5, current = 2, w_cases = []\<rparr>),
      (''DCA-002'', \<lparr>w_capacity = 5, current = 1, w_cases = []\<rparr>),
      (''DCA-003'', \<lparr>w_capacity = 5, current = 3, w_cases = []\<rparr>),
      (''DCA-004'', \<lparr>w_capacity = 5, current = 0, w_cases = []\<rparr>)]"

definition prioritizeCase :: "(real \<Rightarrow> real) \<Rightarrow> int \<Rightarrow> real \<Rightarrow> qcase \<Rightarrow> qcase" where
  "prioritizeCase dbl now random c =
     (let p = (if gtj (q_debtAmount c) (Num 100000) then CRITICAL
               else if gtj (q_debtAmount c) (Num 50000) \<or> gtj (q_debtAge c) (Num 120) then HIGH
               else if gtj (q_debtAmount c) (Num 20000) \<or> gtj (q_debtAge c) (Num 60) then MEDIUM
               else LOW)
      in c\<lparr>q_priority := Some p,
           q_recoveryProbability := Some (toFixed 4 (dbl (random * (4 / 10) + 5 / 10))),
           q_status := PRIORITIZED,
           prioritizedAt := Some now\<rparr>)"

fun updateWorkload :: "string \<Rightarrow> (workload \<Rightarrow> workload) \<Rightarrow> (string \<times> workload) list \<Rightarrow> (string \<times> workload) list" where
  "updateWorkload k f [] = []"
| "updateWorkload k f ((k', w) # ws) =
     (if k' = k then (k', f w) # ws else (k', w) # updateWorkload k f ws)"

text \<open>
  \<open>allocateCase\<close>. Every agent with room draws one \<open>Math.random()\<close>; \<open>rnd n\<close> is the
  \<open>n\<close>-th draw of the call. The loop starts with \<open>bestDCA = null\<close> and \<open>bestScore = 0\<close>;
  \<open>!bestDCA\<close> also holds for an empty key.
\<close>

definition priorityMultiplier :: "priority option \<Rightarrow> real" where
  "priorityMultiplier p =
     (case p of
        Some CRITICAL \<Rightarrow> 15 / 10
      | Some HIGH \<Rightarrow> 13 / 10
      | Some MEDIUM \<Rightarrow> 1
      | Some LOW \<Rightarrow> 8 / 10
      | None \<Rightarrow> 1)"

fun forEachWorkload ::
  "priority option \<Rightarrow> (nat \<Rightarrow> real) \<Rightarrow> nat \<Rightarrow> (string \<times> workload) list \<Rightarrow> string option \<times> real
     \<Rightarrow> string option \<times> real" where
  "forEachWorkload p rnd n [] acc = acc"
| "forEachWorkload p rnd n ((k, w) # ws) acc =
     (if current w \<ge> w_capacity w then forEachWorkload p rnd n ws acc
      else
        let capacityScore = real_of_int (w_capacity w - current w) / real_of_int (w_capacity w);
            score = capacityScore * priorityMultiplier p * (rnd n * (2 / 10) + 9 / 10)
        in forEachWorkload p rnd (Suc n) ws (if score > snd acc then (Some k, score) else acc))"

definition allocateCase ::
  "(real \<Rightarrow> real) \<Rightarrow> (nat \<Rightarrow> real) \<Rightarrow> int \<Rightarrow> qcase \<Rightarrow> (string \<times> workload) list
     \<Rightarrow> bool \<times> qcase \<times> (string \<times> workload) list" where
  "allocateCase dbl rnd now c wl =
     (case forEachWorkload (q_priority c) rnd 0 wl (None, 0) of
        (None, score) \<Rightarrow> (False, c, wl)
      | (Some best, score) \<Rightarrow>
          if best = [] then (False, c, wl)
          else
            (True,
             c\<lparr>q_allocatedDCA := Some best, q_allocationScore := Some (toFixed 4 (dbl score)),
               q_status := ALLOCATED, allocatedAt := Some now\<rparr>,
             updateWorkload best
               (\<lambda>w. w\<lparr>current := current w + 1, w_cases := w_cases w @ [q_caseId c]\<rparr>) wl))"

definition getQCase :: "string \<Rightarrow> qcase list \<Rightarrow> qcase option" where
  "getQCase k cs = find (\<lambda>c. q_caseId c = k) cs"

fun updateQCase :: "string \<Rightarrow> (qcase \<Rightarrow> qcase) \<Rightarrow> qcase list \<Rightarrow> qcase list" where
  "updateQCase k f [] = []"
| "updateQCase k f (c # cs) = (if q_caseId c = k then f c # cs else c # updateQCase k f cs)"

text \<open>
  \<open>dcaWorkload[key]\<close> on the plain object that holds the table: the entry of an own key; for
  a key the object inherits from \<open>Object.prototype\<close> the inherited value, which is truthy and
  has no \<open>cases\<close>; \<open>undefined\<close> otherwise.
\<close>

definition inheritedKeys :: "string list" where
  "inheritedKeys =
     [''constructor'', ''__defineGetter__'', ''__defineSetter__'', ''hasOwnProperty'',
      ''__lookupGetter__'', ''__lookupSetter__'', ''isPrototypeOf'', ''propertyIsEnumerable'',
      ''toString'', ''valueOf'', ''__proto__'', ''toLocaleString'']"

datatype lookup = Own workload | Inherited | Undefined

definition lookupWorkload :: "(string \<times> workload) list \<Rightarrow> string \<Rightarrow> lookup" where
  "lookupWorkload wl k =
     (case map_of wl k of
        Some w \<Rightarrow> Own w
      | None \<Rightarrow> if k \<in> set inheritedKeys then Inherited else Undefined)"

text \<open>
  The release of a case from the agent it is recorded on, when the agent lists it. \<open>None\<close>:
  the recorded key is an inherited one and \<open>.cases.indexOf\<close> throws.
\<close>

definition releaseOld ::
  "string \<Rightarrow> qcase \<Rightarrow> (string \<times> workload) list \<Rightarrow> (string \<times> workload) list option" where
  "releaseOld k c wl =
     (case q_allocatedDCA c of
        None \<Rightarrow> Some wl
      | Some old \<Rightarrow>
          if old = [] then Some wl
          else (case lookupWorkload wl old of
                  Undefined \<Rightarrow> Some wl
                | Inherited \<Rightarrow> None
                | Own w \<Rightarrow>
                    if k \<in> set (w_cases w)
                    then Some (updateWorkload old
                           (\<lambda>w. w\<lparr>w_cases := remove1 k (w_cases w), current := current w - 1\<rparr>) wl)
                    else Some wl))"

text \<open>
  The manual override \<open>POST /api/cases/:caseId/allocate/:dcaId\<close>. \<open>TypeError st\<close>: the
  handler throws and leaves the server in \<open>st\<close>.
\<close>

datatype qerror = QCaseNotFound | QDcaNotFound | TypeError qstate

definition manualAllocate :: "string \<Rightarrow> string \<Rightarrow> int \<Rightarrow> qstate \<Rightarrow> qerror + qstate" where
  "manualAllocate k target now st =
     (case getQCase k (q_caseRegistry st) of
        None \<Rightarrow> Inl QCaseNotFound
      | Some c \<Rightarrow>
          (case lookupWorkload (dcaWorkload st) target of
             Undefined \<Rightarrow> Inl QDcaNotFound
           | found \<Rightarrow>
               (case releaseOld k c (dcaWorkload st) of
                  None \<Rightarrow> Inl (TypeError st)
                | Some wl \<Rightarrow>
                    let cs = updateQCase k (\<lambda>c. c\<lparr>q_allocatedDCA := Some target,
                                                   q_status := ALLOCATED,
                                                   allocatedAt := Some now\<rparr>) (q_caseRegistry st)
                    in (case found of
                          Own w \<Rightarrow>
                            Inr \<lparr>q_caseRegistry = cs,
                                 dcaWorkload =
                                   updateWorkload target
                                     (\<lambda>w. w\<lparr>w_cases := w_cases w @ [k], current := current w + 1\<rparr>)
                                     wl\<rparr>
                        | _ \<Rightarrow> Inl (TypeError \<lparr>q_caseRegistry = cs, dcaWorkload = wl\<rparr>)))))"

section \<open>Properties\<close>

subsection \<open>Notions of the specification\<close>

text \<open>An agent is available when its load is below its capacity.\<close>

definition hasCapacity :: "dca \<Rightarrow> bool" where
  "hasCapacity d = (currentLoad d < capacity d)"




text \<open>The tiers of the specification, first match first.\<close>

definition spec_tier :: "jsnum \<Rightarrow> jsnum \<Rightarrow> priority" where
  "spec_tier amount age =
     (if gtj amount (Num 100000) \<or> gtj age (Num 180) then CRITICAL
      else if gtj amount (Num 50000) \<or> gtj age (Num 120) then HIGH
      else if gtj amount (Num 20000) \<or> gtj age (Num 60) then MEDIUM
      else LOW)"

text \<open>The offsets of the three deadlines of a tier, in milliseconds: hours, days, days.\<close>

definition hours :: "int \<Rightarrow> int" where
  "hours n = n * 3600000"

definition days :: "int \<Rightarrow> int" where
  "days n = n * 24 * 3600000"

definition spec_offsets :: "priority \<Rightarrow> int \<times> int \<times> int" where
  "spec_offsets p =
     (case p of
        CRITICAL \<Rightarrow> (hours 24, days 2, days 7)
      | HIGH \<Rightarrow> (hours 48, days 3, days 15)
      | MEDIUM \<Rightarrow> (hours 72, days 4, days 20)
      | LOW \<Rightarrow> (hours 96, days 7, days 30))"

text \<open>The invariant of the agent records, in both servers.\<close>

definition loadMatchesCases :: "dca list \<Rightarrow> bool" where
  "loadMatchesCases reg = list_all (\<lambda>d. currentLoad d = int (length (cases d))) reg"

definition workloadMatchesCases :: "(string \<times> workload) list \<Rightarrow> bool" where
  "workloadMatchesCases wl = list_all (\<lambda>(k, w). current w = int (length (w_cases w))) wl"

text \<open>The load counter of each agent beyond the length of its case list.\<close>

definition offsets :: "dca list \<Rightarrow> int list" where
  "offsets reg = map (\<lambda>d. currentLoad d - int (length (cases d))) reg"

definition workloadOffsets :: "(string \<times> workload) list \<Rightarrow> (string \<times> int) list" where
  "workloadOffsets wl = map (\<lambda>(k, w). (k, current w - int (length (w_cases w)))) wl"

text \<open>The workload table as triples of identifier, load and case list.\<close>

definition tableView :: "(string \<times> workload) list \<Rightarrow> (string \<times> int \<times> string list) list" where
  "tableView wl = map (\<lambda>(k, w). (k, current w, w_cases w)) wl"

text \<open>The state a status query leaves behind.\<close>

definition afterSlaStatus :: "(real \<Rightarrow> real) \<Rightarrow> session option \<Rightarrow> int \<Rightarrow> state \<Rightarrow> state" where
  "afterSlaStatus dbl sess now st =
     (case slaStatus dbl sess now st of Inl e \<Rightarrow> st | Inr (st', es) \<Rightarrow> st')"

subsection \<open>Example inputs\<close>

text \<open>
  The examples are away from the ties of the formatting: there the digits of the double
  held are those of the exact value.
\<close>

definition exact :: "real \<Rightarrow> real" where
  "exact x = x"

text \<open>Two users of the table \<open>users\<close> with a session.\<close>

definition fedexSession :: session where
  "fedexSession = \<lparr>email = ''fedex@company.com'', s_role = FEDEX, s_dcaId = None\<rparr>"

definition dcaSession :: session where
  "dcaSession = \<lparr>email = ''dca1@company.com'', s_role = DCA, s_dcaId = Some ''DCA-001''\<rparr>"

definition criticalBody :: ingestBody where
  "criticalBody = \<lparr>b_debtAmount = Num 150000, b_debtAge = Num 10, b_geoRegion = Some ''North-East''\<rparr>"


text \<open>The case \<open>FDX-1001\<close> of a first intake at time \<open>0\<close>, before allocation.\<close>

definition criticalCase :: caseData where
  "criticalCase = newCase fedexSession criticalBody 0 (1 / 2) 1001"


text \<open>An intake whose body has neither \<open>debtAmount\<close> nor \<open>debtAge\<close>.\<close>

definition emptyBody :: ingestBody where
  "emptyBody = \<lparr>b_debtAmount = NaN, b_debtAge = NaN, b_geoRegion = None\<rparr>"

text \<open>The server after that first intake.\<close>

definition afterIngest :: state where
  "afterIngest = projr (ingest exact (Some fedexSession) criticalBody 0 (1 / 2) initialState)"

text \<open>The same server after the case has been resolved at time \<open>1\<close>.\<close>

definition afterResolve :: state where
  "afterResolve =
     projr (resolve (Some dcaSession) ''FDX-1001'' ''RECOVERED'' (Some 5000) ''paid'' 1 afterIngest)"

text \<open>A registry whose only agent is at capacity 5 with load 5.\<close>

definition fullRegistry :: "dca list" where
  "fullRegistry =
     [\<lparr>dcaId = ''DCA-001'', name = ''John Smith'', capacity = 5, currentLoad = 5,
       historicalRecoveryRate = 82 / 100, specialization = [''High-Value'', ''Corporate''],
       geoRegion = ''North-East'', complianceScore = 95 / 100,
       cases = [''FDX-1001'', ''FDX-1002'', ''FDX-1003'', ''FDX-1004'', ''FDX-1005''],
       slaBreaches = 0, recoveredAmount = 450000, averageResolutionDays = 22\<rparr>]"

definition fullState :: state where
  "fullState = \<lparr>caseRegistry = [], dcaProfiles = fullRegistry, caseIdCounter = 1005\<rparr>"

text \<open>
  A queued case of the second server, 200 days old; the server right after its intake; and
  the server after the case has been allocated by hand to \<open>DCA-004\<close> at time 5.
\<close>

definition oldCase :: qcase where
  "oldCase =
     \<lparr>q_caseId = ''FDX-1001'', q_debtAmount = Num 1000, q_debtAge = Num 200, q_status = RECEIVED,
      q_priority = None, q_allocatedDCA = None, q_allocationScore = None,
      q_recoveryProbability = None, prioritizedAt = None, allocatedAt = None\<rparr>"

definition initialQueueState :: qstate where
  "initialQueueState = \<lparr>q_caseRegistry = [oldCase], dcaWorkload = initialDcaWorkload\<rparr>"

definition queueState :: qstate where
  "queueState = projr (manualAllocate ''FDX-1001'' ''DCA-004'' 5 initialQueueState)"

subsection \<open>Comparison of numbers\<close>

lemma gtj_irrefl: "\<not> gtj x x"
  by (cases x) simp_all

lemma gtj_trans: "gtj a b \<Longrightarrow> gtj b c \<Longrightarrow> gtj a c"
  by (cases a; cases b; cases c) simp_all

lemma gtj_not_NaN: "gtj a b \<Longrightarrow> a \<noteq> NaN \<and> b \<noteq> NaN"
  by (cases a; cases b) simp_all

lemma gtj_NegInf: "gtj a b \<Longrightarrow> gtj a NegInf"
  by (cases a; cases b) simp_all

lemma not_gtj_raise: "\<not> gtj f s \<Longrightarrow> gtj s' s \<Longrightarrow> \<not> gtj f s'"
  by (cases f; cases s; cases s') simp_all

lemma gtj_total: "a \<noteq> NaN \<Longrightarrow> b \<noteq> NaN \<Longrightarrow> \<not> gtj a b \<Longrightarrow> \<not> gtj b a \<Longrightarrow> a = b"
  by (cases a; cases b) simp_all

lemma gtj_Num_NegInf: "gtj (Num a) NegInf"
  by simp

subsection \<open>The selection loop\<close>

lemma visit_full: "\<not> hasCapacity d \<Longrightarrow> visit dbl c i d l = l"
  by (simp add: visit_def hasCapacity_def)

lemma visit_best:
  "hasCapacity d \<Longrightarrow>
     bestDCA (visit dbl c i d l) = (if gtj (finalScore c d) (bestScore l) then Some i else bestDCA l)
   \<and> bestScore (visit dbl c i d l) =
       (if gtj (finalScore c d) (bestScore l) then finalScore c d else bestScore l)"
  by (simp add: visit_def hasCapacity_def Let_def)

lemma visit_candidates:
  "candidateDetails (visit dbl c i d l) =
     candidateDetails l @
       (if hasCapacity d
        then [\<lparr>cd_dcaId = dcaId d, cd_dcaScore = toFixed 4 (dbl (dcaScore c d)),
               cd_priorityFactor = priorityFactor (priority c),
               cd_finalScore = toFixedJ dbl 6 (finalScore c d)\<rparr>]
        else [])"
  by (simp add: visit_def hasCapacity_def Let_def)

lemma forEachDca_candidates:
  "candidateDetails (forEachDca dbl c i ds l) =
     candidateDetails l @
       map (\<lambda>d. \<lparr>cd_dcaId = dcaId d, cd_dcaScore = toFixed 4 (dbl (dcaScore c d)),
                  cd_priorityFactor = priorityFactor (priority c),
                  cd_finalScore = toFixedJ dbl 6 (finalScore c d)\<rparr>) (filter hasCapacity ds)"
  by (induction ds arbitrary: i l) (simp_all add: visit_candidates)

lemma forEachDca_full:
  "\<forall>d\<in>set ds. \<not> hasCapacity d \<Longrightarrow> forEachDca dbl c i ds l = l"
  by (induction ds arbitrary: i l) (simp_all add: visit_full)

text \<open>
  The loop leaves the best agent and its score as they were, or ends on an available agent
  of the list with that agent's score, which is greater than the score it started with.
\<close>

lemma visit_step:
  "(bestDCA (visit dbl c i d l) = bestDCA l \<and> bestScore (visit dbl c i d l) = bestScore l
      \<and> \<not> (hasCapacity d \<and> gtj (finalScore c d) (bestScore l)))
   \<or> (hasCapacity d \<and> gtj (finalScore c d) (bestScore l)
      \<and> bestDCA (visit dbl c i d l) = Some i \<and> bestScore (visit dbl c i d l) = finalScore c d)"
  by (cases "hasCapacity d") (simp_all add: visit_best visit_full)

lemma forEachDca_origin:
  "(bestDCA (forEachDca dbl c i ds l) = bestDCA l \<and> bestScore (forEachDca dbl c i ds l) = bestScore l)
   \<or> (\<exists>k<length ds. hasCapacity (ds ! k)
         \<and> bestDCA (forEachDca dbl c i ds l) = Some (i + k)
         \<and> bestScore (forEachDca dbl c i ds l) = finalScore c (ds ! k)
         \<and> gtj (finalScore c (ds ! k)) (bestScore l))"
proof (induction ds arbitrary: i l)
  case Nil
  then show ?case by simp
next
  case (Cons d ds)
  let ?l1 = "visit dbl c i d l"
  let ?F = "forEachDca dbl c (Suc i) ds ?l1"
  have up: "bestScore ?l1 = bestScore l \<or> gtj (bestScore ?l1) (bestScore l)"
    using visit_step [of dbl c i d l] by auto
  from Cons.IH [of "Suc i" ?l1]
  consider (old) "bestDCA ?F = bestDCA ?l1" "bestScore ?F = bestScore ?l1"
    | (new) k where "k < length ds" "hasCapacity (ds ! k)" "bestDCA ?F = Some (Suc i + k)"
        "bestScore ?F = finalScore c (ds ! k)" "gtj (finalScore c (ds ! k)) (bestScore ?l1)"
    by blast
  then show ?case
  proof cases
    case old
    from visit_step [of dbl c i d l] show ?thesis
    proof
      assume "bestDCA ?l1 = bestDCA l \<and> bestScore ?l1 = bestScore l
        \<and> \<not> (hasCapacity d \<and> gtj (finalScore c d) (bestScore l))"
      with old show ?thesis by simp
    next
      assume "hasCapacity d \<and> gtj (finalScore c d) (bestScore l)
        \<and> bestDCA ?l1 = Some i \<and> bestScore ?l1 = finalScore c d"
      with old have "0 < length (d # ds) \<and> hasCapacity ((d # ds) ! 0)
         \<and> bestDCA (forEachDca dbl c i (d # ds) l) = Some (i + 0)
         \<and> bestScore (forEachDca dbl c i (d # ds) l) = finalScore c ((d # ds) ! 0)
         \<and> gtj (finalScore c ((d # ds) ! 0)) (bestScore l)"
        by simp
      then show ?thesis by blast
    qed
  next
    case new
    from new(5) up have "gtj (finalScore c (ds ! k)) (bestScore l)"
      by (auto intro: gtj_trans)
    with new have "Suc k < length (d # ds) \<and> hasCapacity ((d # ds) ! Suc k)
         \<and> bestDCA (forEachDca dbl c i (d # ds) l) = Some (i + Suc k)
         \<and> bestScore (forEachDca dbl c i (d # ds) l) = finalScore c ((d # ds) ! Suc k)
         \<and> gtj (finalScore c ((d # ds) ! Suc k)) (bestScore l)"
      by simp
    then show ?thesis by blast
  qed
qed

lemma forEachDca_max:
  assumes "bestDCA (forEachDca dbl c i ds l) = Some j"
    and "k < length ds" and "hasCapacity (ds ! k)"
    and "\<And>j0. bestDCA l = Some j0 \<Longrightarrow> j0 < i"
  shows "\<not> gtj (finalScore c (ds ! k)) (bestScore (forEachDca dbl c i ds l))
       \<and> (finalScore c (ds ! k) = bestScore (forEachDca dbl c i ds l) \<longrightarrow> j \<le> i + k)"
  using assms
proof (induction ds arbitrary: i l k)
  case Nil
  then show ?case by simp
next
  case (Cons d ds)
  let ?l1 = "visit dbl c i d l"
  let ?F = "forEachDca dbl c (Suc i) ds ?l1"
  have F: "bestDCA ?F = Some j" using Cons.prems(1) by simp
  have inv: "j0 < Suc i" if a: "bestDCA ?l1 = Some j0" for j0
    using visit_step [of dbl c i d l] a Cons.prems(4) [of j0] by auto
  show ?case
  proof (cases k)
    case 0
    with Cons.prems have cap: "hasCapacity d" by simp
    have le1: "\<not> gtj (finalScore c d) (bestScore ?l1)"
      using visit_step [of dbl c i d l] cap by (auto simp: gtj_irrefl)
    from forEachDca_origin [of dbl c "Suc i" ds ?l1]
    have "\<not> gtj (finalScore c d) (bestScore ?F) \<and> (finalScore c d = bestScore ?F \<longrightarrow> j \<le> i)"
    proof
      assume same: "bestDCA ?F = bestDCA ?l1 \<and> bestScore ?F = bestScore ?l1"
      with F inv [of j] le1 show ?thesis
        using visit_step [of dbl c i d l] cap by auto
    next
      assume "\<exists>k<length ds. hasCapacity (ds ! k) \<and> bestDCA ?F = Some (Suc i + k)
         \<and> bestScore ?F = finalScore c (ds ! k) \<and> gtj (finalScore c (ds ! k)) (bestScore ?l1)"
      then have gt: "gtj (bestScore ?F) (bestScore ?l1)" by auto
      from not_gtj_raise [OF le1 gt] gt le1 show ?thesis by auto
    qed
    with 0 show ?thesis by simp
  next
    case (Suc k')
    from Cons.prems Suc have "k' < length ds" "hasCapacity (ds ! k')" by simp_all
    from Cons.IH [OF F this inv] Suc show ?thesis by simp
  qed
qed

lemma forEachDca_finds:
  "\<exists>d\<in>set ds. hasCapacity d \<and> gtj (finalScore c d) (bestScore l) \<Longrightarrow>
     bestDCA (forEachDca dbl c i ds l) \<noteq> None"
proof (induction ds arbitrary: i l)
  case Nil
  then show ?case by simp
next
  case (Cons d ds)
  let ?l1 = "visit dbl c i d l"
  show ?case
  proof (cases "hasCapacity d \<and> gtj (finalScore c d) (bestScore l)")
    case True
    then have "bestDCA ?l1 = Some i" by (simp add: visit_best)
    with forEachDca_origin [of dbl c "Suc i" ds ?l1] show ?thesis by auto
  next
    case False
    then have "bestScore ?l1 = bestScore l"
      using visit_step [of dbl c i d l] by auto
    with False Cons.prems have "\<exists>d\<in>set ds. hasCapacity d \<and> gtj (finalScore c d) (bestScore ?l1)"
      by auto
    from Cons.IH [OF this] show ?thesis by simp
  qed
qed

lemma forEachDca_best_formatting:
  "bestDCA l = bestDCA l' \<Longrightarrow> bestScore l = bestScore l' \<Longrightarrow>
     bestDCA (forEachDca dbl c i ds l) = bestDCA (forEachDca dbl' c i ds l')
   \<and> bestScore (forEachDca dbl c i ds l) = bestScore (forEachDca dbl' c i ds l')"
proof (induction ds arbitrary: i l l')
  case Nil
  then show ?case by simp
next
  case (Cons d ds)
  have "bestDCA (visit dbl c i d l) = bestDCA (visit dbl' c i d l')"
    "bestScore (visit dbl c i d l) = bestScore (visit dbl' c i d l')"
    using Cons.prems by (cases "hasCapacity d"; simp add: visit_best visit_full)+
  from Cons.IH [OF this] show ?case by simp
qed

lemma scan_origin:
  "bestDCA (scan dbl c reg) = Some i \<Longrightarrow>
     i < length reg \<and> hasCapacity (reg ! i) \<and> bestScore (scan dbl c reg) = finalScore c (reg ! i)
   \<and> gtj (finalScore c (reg ! i)) NegInf"
  using forEachDca_origin [of dbl c 0 reg "\<lparr>bestDCA = None, bestScore = NegInf, candidateDetails = []\<rparr>"]
  by (auto simp: scan_def)

lemma scan_max:
  assumes "bestDCA (scan dbl c reg) = Some i" and "k < length reg" and "hasCapacity (reg ! k)"
  shows "\<not> gtj (finalScore c (reg ! k)) (finalScore c (reg ! i))
       \<and> (finalScore c (reg ! k) = finalScore c (reg ! i) \<longrightarrow> i \<le> k)"
proof -
  let ?l = "\<lparr>bestDCA = None, bestScore = NegInf, candidateDetails = []\<rparr>"
  have "bestDCA (forEachDca dbl c 0 reg ?l) = Some i" using assms(1) by (simp add: scan_def)
  from forEachDca_max [OF this assms(2,3)] scan_origin [OF assms(1)]
  show ?thesis by (simp add: scan_def)
qed

lemma scan_finds:
  "\<exists>d\<in>set reg. hasCapacity d \<and> gtj (finalScore c d) NegInf \<Longrightarrow> \<exists>i. bestDCA (scan dbl c reg) = Some i"
  using forEachDca_finds [of reg c "\<lparr>bestDCA = None, bestScore = NegInf, candidateDetails = []\<rparr>" dbl 0]
  by (auto simp: scan_def)

lemma scan_full: "\<forall>d\<in>set reg. \<not> hasCapacity d \<Longrightarrow> bestDCA (scan dbl c reg) = None"
  by (simp add: scan_def forEachDca_full)

lemma scan_best_formatting: "bestDCA (scan dbl c reg) = bestDCA (scan dbl' c reg)"
  using forEachDca_best_formatting
    [of "\<lparr>bestDCA = None, bestScore = NegInf, candidateDetails = []\<rparr>"
        "\<lparr>bestDCA = None, bestScore = NegInf, candidateDetails = []\<rparr>" dbl c 0 reg dbl']
  by (simp add: scan_def)

lemma finalScore_Num:
  "recoveryProbability c = Num p \<Longrightarrow>
     finalScore c d = Num (p * dcaScore c d * priorityFactor (priority c))"
  by (simp add: finalScore_def)

lemma finalScore_NaN: "recoveryProbability c = NaN \<Longrightarrow> finalScore c d = NaN"
  by (simp add: finalScore_def)

lemma scan_NaN: "recoveryProbability c = NaN \<Longrightarrow> bestDCA (scan dbl c reg) = None"
proof (cases "bestDCA (scan dbl c reg)")
  case None
  then show ?thesis .
next
  case (Some i)
  assume "recoveryProbability c = NaN"
  with scan_origin [OF Some] show ?thesis by (simp add: finalScore_NaN)
qed

lemma allocate_none:
  "bestDCA (scan dbl c reg) = None \<Longrightarrow> allocateCaseIntelligently dbl now reg c = (reg, c)"
  by (simp add: allocateCaseIntelligently_def)

lemma allocate_some:
  assumes "bestDCA (scan dbl c reg) = Some i"
  shows "allocateCaseIntelligently dbl now reg c =
       (reg[i := (reg ! i)\<lparr>currentLoad := currentLoad (reg ! i) + 1,
                           cases := cases (reg ! i) @ [caseId c]\<rparr>],
        c\<lparr>allocatedDCA := Some (dcaId (reg ! i)),
          allocationScore := Some (toFixedJ dbl 4 (finalScore c (reg ! i))),
          allocationCandidates := Some (candidateDetails (scan dbl c reg)),
          allocationChosen := Some (dcaId (reg ! i), toFixedJ dbl 6 (finalScore c (reg ! i))),
          status := ALLOCATED,
          slaDeadlines := Some (setDeadlines now c),
          auditTrail := auditTrail c @
            [\<lparr>action = ''CASE_ALLOCATED'', user = ''SYSTEM'', timestamp = now,
              details = AllocatedTo (dcaId (reg ! i)) (toFixedJ dbl 4 (finalScore c (reg ! i)))\<rparr>]\<rparr>)"
  using scan_origin [OF assms] assms by (simp add: allocateCaseIntelligently_def Let_def)

lemma ascending_ids:
  "sorted_wrt (<) (map dcaId reg) \<Longrightarrow> i \<le> k \<Longrightarrow> k < length reg \<Longrightarrow> dcaId (reg ! i) \<le> dcaId (reg ! k)"
  by (cases "i = k") (auto simp: sorted_wrt_iff_nth_less less_imp_le)

lemma allocate_keeps:
  assumes "\<And>d n cs. g (d\<lparr>currentLoad := n, cases := cs\<rparr>) = g d"
  shows "map g (fst (allocateCaseIntelligently dbl now reg c)) = map g reg"
proof (cases "bestDCA (scan dbl c reg)")
  case None
  then show ?thesis by (simp add: allocate_none)
next
  case (Some i)
  from scan_origin [OF Some] have "i < length reg" by simp
  then show ?thesis
    by (simp add: allocate_some [OF Some] map_update assms list_update_same_conv)
qed

lemma allocate_keeps_ids:
  "map dcaId (fst (allocateCaseIntelligently dbl now reg c)) = map dcaId reg"
  by (rule allocate_keeps) simp

subsection \<open>Selection of the winning agent\<close>

lemma best_criticalCase:
  "bestDCA (scan dbl criticalCase initialDcaProfiles) = Some 0"
  by (simp add: scan_def visit_def Let_def initialDcaProfiles_def finalScore_def
        dcaScore_def specializationMatch_def geoMatch_def loadPenalty_def complianceRisk_def
        criticalCase_def newCase_def criticalBody_def assessRisk_def
        priorityNames_def calculateRecoveryProbability_def jmin_def jmax_def)

text \<open>
  Claim C1. The agents are visited in the order of the registry, and a later agent replaces
  the best one only when its \<open>finalScore\<close> is greater (\<open>>\<close>) than the best score, which
  starts at \<open>-Infinity\<close>. The registry is created with its identifiers in ascending order
  and no operation adds, removes or reorders an agent (\<open>allocate_keeps_ids\<close>,
  \<open>registry_ids_fixed\<close>). So on every registry with ascending identifiers, whenever the
  loop chooses an agent: the agent is available, no available agent has a greater
  \<open>finalScore\<close>, among the available agents with the same \<open>finalScore\<close> it has the least
  identifier, it is the only available agent with a number as score and these two
  properties, and the case records it with that score. An agent is chosen exactly when
  some available agent has a \<open>finalScore\<close> above \<open>-Infinity\<close>: when the recovery
  probability of the case is a finite number that is whenever an agent is available, and
  when it is \<open>NaN\<close> (an intake without a numeric \<open>debtAmount\<close> or \<open>debtAge\<close>) no agent is
  chosen and nothing is written. The winner is determined by the case and the registry
  alone; it does not depend on how the scores are formatted.
\<close>

theorem allocation_selects_greatest_score_lowest_id:
  assumes asc: "sorted_wrt (<) (map dcaId reg)"
  shows "(\<forall>i. bestDCA (scan dbl c reg) = Some i \<longrightarrow>
            i < length reg
          \<and> currentLoad (reg ! i) < capacity (reg ! i)
          \<and> (\<forall>d\<in>set reg. currentLoad d < capacity d \<longrightarrow>
                \<not> gtj (finalScore c d) (finalScore c (reg ! i))
              \<and> (finalScore c d = finalScore c (reg ! i) \<longrightarrow> dcaId (reg ! i) \<le> dcaId d))
          \<and> (\<forall>d\<in>set reg. currentLoad d < capacity d \<and> finalScore c d \<noteq> NaN
                \<and> (\<forall>e\<in>set reg. currentLoad e < capacity e \<longrightarrow>
                      \<not> gtj (finalScore c e) (finalScore c d)
                    \<and> (finalScore c e = finalScore c d \<longrightarrow> dcaId d \<le> dcaId e))
                \<longrightarrow> d = reg ! i)
          \<and> bestScore (scan dbl c reg) = finalScore c (reg ! i)
          \<and> allocatedDCA (snd (allocateCaseIntelligently dbl now reg c)) = Some (dcaId (reg ! i))
          \<and> allocationChosen (snd (allocateCaseIntelligently dbl now reg c))
               = Some (dcaId (reg ! i), toFixedJ dbl 6 (finalScore c (reg ! i))))
       \<and> ((\<exists>i. bestDCA (scan dbl c reg) = Some i)
            = (\<exists>d\<in>set reg. currentLoad d < capacity d \<and> gtj (finalScore c d) NegInf))
       \<and> (\<forall>p. recoveryProbability c = Num p \<longrightarrow>
            (\<exists>i. bestDCA (scan dbl c reg) = Some i) = (\<exists>d\<in>set reg. currentLoad d < capacity d))
       \<and> (recoveryProbability c = NaN \<longrightarrow>
            bestDCA (scan dbl c reg) = None
          \<and> allocateCaseIntelligently dbl now reg c = (reg, c))
       \<and> bestDCA (scan dbl c reg) = bestDCA (scan dbl' c reg)"
proof -
  have chosen: "i < length reg
          \<and> currentLoad (reg ! i) < capacity (reg ! i)
          \<and> (\<forall>d\<in>set reg. currentLoad d < capacity d \<longrightarrow>
                \<not> gtj (finalScore c d) (finalScore c (reg ! i))
              \<and> (finalScore c d = finalScore c (reg ! i) \<longrightarrow> dcaId (reg ! i) \<le> dcaId d))
          \<and> (\<forall>d\<in>set reg. currentLoad d < capacity d \<and> finalScore c d \<noteq> NaN
                \<and> (\<forall>e\<in>set reg. currentLoad e < capacity e \<longrightarrow>
                      \<not> gtj (finalScore c e) (finalScore c d)
                    \<and> (finalScore c e = finalScore c d \<longrightarrow> dcaId d \<le> dcaId e))
                \<longrightarrow> d = reg ! i)
          \<and> bestScore (scan dbl c reg) = finalScore c (reg ! i)
          \<and> allocatedDCA (snd (allocateCaseIntelligently dbl now reg c)) = Some (dcaId (reg ! i))
          \<and> allocationChosen (snd (allocateCaseIntelligently dbl now reg c))
               = Some (dcaId (reg ! i), toFixedJ dbl 6 (finalScore c (reg ! i)))"
    if b: "bestDCA (scan dbl c reg) = Some i" for i
  proof -
    let ?w = "reg ! i"
    from scan_origin [OF b] have i: "i < length reg" and cap: "hasCapacity ?w"
      and s: "bestScore (scan dbl c reg) = finalScore c ?w"
      and num: "gtj (finalScore c ?w) NegInf" by simp_all
    have mem: "?w \<in> set reg" using i by simp
    have top: "\<not> gtj (finalScore c d) (finalScore c ?w)
        \<and> (finalScore c d = finalScore c ?w \<longrightarrow> dcaId ?w \<le> dcaId d)"
      if "d \<in> set reg" "currentLoad d < capacity d" for d
    proof -
      from that(1) obtain k where k: "k < length reg" "reg ! k = d" by (auto simp: in_set_conv_nth)
      with that(2) have "hasCapacity (reg ! k)" by (simp add: hasCapacity_def)
      from scan_max [OF b k(1) this] k(2) ascending_ids [OF asc _ k(1), of i]
      show ?thesis by auto
    qed
    have dist: "distinct (map dcaId reg)"
      using asc by (simp add: strict_sorted_iff)
    have uniq: "d = ?w"
      if "d \<in> set reg" "currentLoad d < capacity d" "finalScore c d \<noteq> NaN"
        "\<forall>e\<in>set reg. currentLoad e < capacity e \<longrightarrow>
           \<not> gtj (finalScore c e) (finalScore c d)
         \<and> (finalScore c e = finalScore c d \<longrightarrow> dcaId d \<le> dcaId e)"
      for d
    proof -
      from top [OF that(1,2)] have a: "\<not> gtj (finalScore c d) (finalScore c ?w)"
        and a': "finalScore c d = finalScore c ?w \<longrightarrow> dcaId ?w \<le> dcaId d" by simp_all
      from that(4) mem cap have b': "\<not> gtj (finalScore c ?w) (finalScore c d)"
        and b'': "finalScore c ?w = finalScore c d \<longrightarrow> dcaId d \<le> dcaId ?w"
        by (auto simp: hasCapacity_def)
      from gtj_not_NaN [OF num] have "finalScore c ?w \<noteq> NaN" by simp
      from gtj_total [OF that(3) this a b'] a' b''
      have "dcaId d = dcaId ?w" by simp
      with dist that(1) mem show ?thesis
        by (meson distinct_map inj_onD)
    qed
    from allocate_some [OF b, of now]
    have "allocatedDCA (snd (allocateCaseIntelligently dbl now reg c)) = Some (dcaId ?w)"
      "allocationChosen (snd (allocateCaseIntelligently dbl now reg c))
         = Some (dcaId ?w, toFixedJ dbl 6 (finalScore c ?w))"
      by simp_all
    with i cap top uniq s show ?thesis
      unfolding hasCapacity_def by blast
  qed
  have iff: "(\<exists>i. bestDCA (scan dbl c reg) = Some i)
       = (\<exists>d\<in>set reg. currentLoad d < capacity d \<and> gtj (finalScore c d) NegInf)"
  proof
    assume "\<exists>i. bestDCA (scan dbl c reg) = Some i"
    then obtain i where "bestDCA (scan dbl c reg) = Some i" by blast
    from scan_origin [OF this]
    have "reg ! i \<in> set reg" "currentLoad (reg ! i) < capacity (reg ! i)"
      "gtj (finalScore c (reg ! i)) NegInf"
      by (simp_all add: hasCapacity_def)
    then show "\<exists>d\<in>set reg. currentLoad d < capacity d \<and> gtj (finalScore c d) NegInf" by blast
  next
    assume "\<exists>d\<in>set reg. currentLoad d < capacity d \<and> gtj (finalScore c d) NegInf"
    then have "\<exists>d\<in>set reg. hasCapacity d \<and> gtj (finalScore c d) NegInf"
      by (simp add: hasCapacity_def)
    then show "\<exists>i. bestDCA (scan dbl c reg) = Some i" by (rule scan_finds)
  qed
  have finite: "(\<exists>i. bestDCA (scan dbl c reg) = Some i) = (\<exists>d\<in>set reg. currentLoad d < capacity d)"
    if "recoveryProbability c = Num p" for p
    unfolding iff by (simp add: finalScore_Num [OF that])
  have nan: "bestDCA (scan dbl c reg) = None \<and> allocateCaseIntelligently dbl now reg c = (reg, c)"
    if "recoveryProbability c = NaN"
    by (simp add: scan_NaN [OF that] allocate_none)
  from chosen iff finite nan scan_best_formatting [of dbl c reg dbl'] show ?thesis
    by blast
qed

theorem allocation_selects_greatest_score_lowest_id_witness:
  "sorted_wrt (<) (map dcaId initialDcaProfiles)
   \<and> bestDCA (scan exact criticalCase initialDcaProfiles) = Some 0
   \<and> recoveryProbability criticalCase = Num (49 / 72)
   \<and> list_all (\<lambda>d. currentLoad d < capacity d) initialDcaProfiles
   \<and> list_all (\<lambda>d. \<not> gtj (finalScore criticalCase d) (finalScore criticalCase (initialDcaProfiles ! 0)))
        initialDcaProfiles
   \<and> allocatedDCA (snd (allocateCaseIntelligently exact 0 initialDcaProfiles criticalCase))
        = Some ''DCA-001''"
proof -
  have h1: "sorted_wrt (<) (map dcaId initialDcaProfiles)"
    by (simp add: initialDcaProfiles_def)
  have h2: "list_all (\<lambda>d. currentLoad d < capacity d) initialDcaProfiles"
    by (simp add: initialDcaProfiles_def)
  have h3: "recoveryProbability criticalCase = Num (49 / 72)"
    by (simp add: criticalCase_def newCase_def criticalBody_def
        calculateRecoveryProbability_def Let_def jmin_def jmax_def)
  have h4: "dcaId (initialDcaProfiles ! 0) = ''DCA-001''"
    by (simp add: initialDcaProfiles_def)
  note b = best_criticalCase [of exact]
  from allocation_selects_greatest_score_lowest_id [OF h1, of exact criticalCase 0 exact] b
  have "\<forall>d\<in>set initialDcaProfiles. currentLoad d < capacity d \<longrightarrow>
          \<not> gtj (finalScore criticalCase d) (finalScore criticalCase (initialDcaProfiles ! 0))"
    and "allocatedDCA (snd (allocateCaseIntelligently exact 0 initialDcaProfiles criticalCase))
          = Some (dcaId (initialDcaProfiles ! 0))"
    by blast+
  with h1 h2 h3 h4 b show ?thesis
    by (simp add: list_all_iff)
qed

subsection \<open>Auxiliary facts and the examples\<close>

lemma assessRisk_range: "assessRisk amount age < 4"
  by (simp add: assessRisk_def)

lemma priorityNames_assessRisk: "priorityNames ! assessRisk amount age = spec_tier amount age"
  by (simp add: assessRisk_def spec_tier_def priorityNames_def)

text \<open>
  The recovery probability of an intake is \<open>NaN\<close> exactly when the amount or the age is, and
  a number between 0.2 and 1 otherwise.
\<close>

lemma calculateRecoveryProbability_NaN:
  "amount = NaN \<or> age = NaN \<Longrightarrow> calculateRecoveryProbability amount age random = NaN"
  by (cases amount; cases age)
    (auto simp: calculateRecoveryProbability_def Let_def jmin_def jmax_def)

lemma clamp_range:
  "x \<noteq> NaN \<Longrightarrow> lo \<le> hi \<Longrightarrow> \<exists>p. jmax (Num lo) (jmin (Num hi) x) = Num p \<and> lo \<le> p \<and> p \<le> hi"
  by (cases x) (auto simp: jmin_def jmax_def)

lemma factor_positive:
  "x \<noteq> NaN \<Longrightarrow> m < 1 \<Longrightarrow>
     jplus (Num 1) (jneg (jmin (jover x k) (Num m))) = PosInf
   \<or> (\<exists>a>0. jplus (Num 1) (jneg (jmin (jover x k) (Num m))) = Num a)"
  by (cases x) (auto simp: jmin_def)

lemma product_not_NaN:
  "x = PosInf \<or> (\<exists>a>0. x = Num a) \<Longrightarrow> y = PosInf \<or> (\<exists>b>0. y = Num b) \<Longrightarrow>
     jplus (jtimes x y) (Num n) \<noteq> NaN"
  by auto

lemma calculateRecoveryProbability_Num:
  assumes "amount \<noteq> NaN" and "age \<noteq> NaN"
  shows "\<exists>p. calculateRecoveryProbability amount age random = Num p \<and> 2 / 10 \<le> p \<and> p \<le> 1"
proof -
  let ?a = "jplus (Num 1) (jneg (jmin (jover age 360) (Num (1 / 2))))"
  let ?b = "jplus (Num 1) (jneg (jmin (jover amount 500000) (Num (4 / 10))))"
  let ?n = "random * (15 / 100) - 75 / 1000"
  have "jplus (jtimes ?a ?b) (Num ?n) \<noteq> NaN"
    by (rule product_not_NaN) (rule factor_positive, simp_all add: assms)+
  from clamp_range [OF this, of "2 / 10" 1]
  show ?thesis by (simp add: calculateRecoveryProbability_def Let_def)
qed

lemma newCase_recoveryProbability:
  "recoveryProbability (newCase s b now random n)
     = calculateRecoveryProbability (b_debtAmount b) (b_debtAge b) random"
  by (simp add: newCase_def Let_def)

lemma saturated_no_capacity:
  "\<forall>d\<in>set reg. capacity d \<le> currentLoad d \<Longrightarrow> \<forall>d\<in>set reg. \<not> hasCapacity d"
  by (auto simp: hasCapacity_def)

lemma ingest_saturated:
  assumes "s_role s = FEDEX" and "\<forall>d\<in>set (dcaProfiles st). capacity d \<le> currentLoad d"
  shows "ingest dbl (Some s) b now random st =
       Inr \<lparr>caseRegistry = caseRegistry st @ [newCase s b now random (Suc (caseIdCounter st))],
            dcaProfiles = dcaProfiles st, caseIdCounter = Suc (caseIdCounter st)\<rparr>"
proof -
  have "allocateCaseIntelligently dbl now (dcaProfiles st) (newCase s b now random (Suc (caseIdCounter st)))
      = (dcaProfiles st, newCase s b now random (Suc (caseIdCounter st)))"
    using saturated_no_capacity [OF assms(2)] by (simp add: allocate_none scan_full)
  with assms(1) show ?thesis by (simp add: ingest_def Let_def)
qed




lemma scan_candidates:
  "candidateDetails (scan dbl c reg) =
     map (\<lambda>d. \<lparr>cd_dcaId = dcaId d, cd_dcaScore = toFixed 4 (dbl (dcaScore c d)),
                cd_priorityFactor = priorityFactor (priority c),
                cd_finalScore = toFixedJ dbl 6 (finalScore c d)\<rparr>) (filter hasCapacity reg)"
  by (simp add: scan_def forEachDca_candidates)




text \<open>
  At a tie the double held decides the digit: the exact value 0.6645625 is printed with 6
  places as 0.664563, a double just below it as 0.664562.
\<close>

lemma toFixed_at_tie:
  "toFixed 6 (6645625 / 10000000) = 664563 / 1000000"
  "toFixed 6 (6645625 / 10000000 - 1 / 10 ^ 17) = 664562 / 1000000"
  by (simp_all add: toFixed_def)


lemma caseId_criticalCase: "caseId criticalCase = ''FDX-1001''"
  by (simp add: criticalCase_def newCase_def Let_def string_of_nat.simps)

lemma criticalCase_fields:
  "priority criticalCase = CRITICAL" "recoveryProbability criticalCase = Num (49 / 72)"
  "caseGeoRegion criticalCase = ''North-East''" "debtAmount criticalCase = Num 150000"
  "debtAge criticalCase = Num 10" "status criticalCase = RECEIVED"
  "allocatedDCA criticalCase = None" "slaDeadlines criticalCase = None"
  by (simp_all add: criticalCase_def newCase_def criticalBody_def assessRisk_def priorityNames_def
      calculateRecoveryProbability_def Let_def jmin_def jmax_def)

lemma afterIngest_eq:
  "afterIngest =
     \<lparr>caseRegistry = [snd (allocateCaseIntelligently exact 0 initialDcaProfiles criticalCase)],
      dcaProfiles = fst (allocateCaseIntelligently exact 0 initialDcaProfiles criticalCase),
      caseIdCounter = 1001\<rparr>"
  by (simp add: afterIngest_def ingest_def initialState_def fedexSession_def Let_def
      criticalCase_def split: prod.splits)

lemma allocate_criticalCase:
  "allocateCaseIntelligently dbl now initialDcaProfiles criticalCase =
     (initialDcaProfiles[0 := (initialDcaProfiles ! 0)\<lparr>currentLoad := 1, cases := [''FDX-1001'']\<rparr>],
      criticalCase\<lparr>allocatedDCA := Some ''DCA-001'',
          allocationScore := Some (toFixedJ dbl 4 (finalScore criticalCase (initialDcaProfiles ! 0))),
          allocationCandidates := Some (candidateDetails (scan dbl criticalCase initialDcaProfiles)),
          allocationChosen :=
            Some (''DCA-001'', toFixedJ dbl 6 (finalScore criticalCase (initialDcaProfiles ! 0))),
          status := ALLOCATED,
          slaDeadlines := Some \<lparr>firstAction = now + 86400000, followUp = now + 172800000,
                                 resolution = now + 604800000\<rparr>,
          auditTrail := auditTrail criticalCase @
            [\<lparr>action = ''CASE_ALLOCATED'', user = ''SYSTEM'', timestamp = now,
              details = AllocatedTo ''DCA-001''
                (toFixedJ dbl 4 (finalScore criticalCase (initialDcaProfiles ! 0)))\<rparr>]\<rparr>)"
proof -
  have "dcaId (initialDcaProfiles ! 0) = ''DCA-001''" "currentLoad (initialDcaProfiles ! 0) = 0"
    "cases (initialDcaProfiles ! 0) = []"
    by (simp_all add: initialDcaProfiles_def)
  moreover have "setDeadlines now criticalCase =
      \<lparr>firstAction = now + 86400000, followUp = now + 172800000, resolution = now + 604800000\<rparr>"
    by (simp add: setDeadlines_def criticalCase_fields assessRisk_def priorityNames_def)
  ultimately show ?thesis
    by (simp add: allocate_some [OF best_criticalCase] caseId_criticalCase)
qed

lemma afterIngest_dcas:
  "dcaProfiles afterIngest =
     initialDcaProfiles[0 := (initialDcaProfiles ! 0)\<lparr>currentLoad := 1, cases := [''FDX-1001'']\<rparr>]"
  by (simp add: afterIngest_eq allocate_criticalCase)

lemma toFixed_zero: "toFixed f 0 = 0"
  by (simp add: toFixed_def)

lemma toFixed_nonneg: "0 \<le> x \<Longrightarrow> 0 \<le> toFixed f x"
  by (simp add: toFixed_def)

lemma heldQuotient_negative: "a < 0 \<Longrightarrow> 0 < b \<Longrightarrow> max 0 (heldQuotient dbl a b) = 0"
  by (simp add: heldQuotient_def Let_def max_def divide_less_0_iff)

lemma overdue_clamped:
  "resolution sd < now \<Longrightarrow> max 0 (heldQuotient dbl (real_of_int (resolution sd - now)) 3600000) = 0"
  by (rule heldQuotient_negative) simp_all

lemma slaForEach_single_breached:
  assumes "slaDeadlines c = Some sd" and "status c \<noteq> RESOLVED" and "resolution sd < now"
  shows "slaForEach dbl now [c] reg =
     ([c\<lparr>slaBreached := True\<rparr>], penalise c reg,
      [\<lparr>e_caseId = caseId c, e_priority = priority c, e_allocatedDCA = allocatedDCA c,
        e_slaDeadlines = sd, breached = True, hoursRemaining = 0\<rparr>])"
  using assms overdue_clamped [OF assms(3), of dbl]
  by (simp add: Let_def toFixed_zero del: of_int_diff)

lemma slaForEach_single_twice:
  assumes "slaDeadlines c = Some sd" and "status c \<noteq> RESOLVED" and "resolution sd < now"
  shows "slaForEach dbl now [c\<lparr>slaBreached := True\<rparr>] (penalise c reg) =
     ([c\<lparr>slaBreached := True\<rparr>], penalise c (penalise c reg),
      [\<lparr>e_caseId = caseId c, e_priority = priority c, e_allocatedDCA = allocatedDCA c,
        e_slaDeadlines = sd, breached = True, hoursRemaining = 0\<rparr>])"
proof -
  have "penalise (c\<lparr>slaBreached := True\<rparr>) = penalise c"
    by (rule ext) (simp add: penalise_def)
  with slaForEach_single_breached [of "c\<lparr>slaBreached := True\<rparr>" sd now dbl "penalise c reg"] assms
  show ?thesis by simp
qed

lemma afterIngest_cases:
  "caseRegistry afterIngest = [snd (allocateCaseIntelligently exact 0 initialDcaProfiles criticalCase)]"
  by (simp add: afterIngest_eq)

lemma allocated_criticalCase:
  "slaDeadlines (snd (allocateCaseIntelligently dbl 0 initialDcaProfiles criticalCase))
     = Some \<lparr>firstAction = 86400000, followUp = 172800000, resolution = 604800000\<rparr>"
  "status (snd (allocateCaseIntelligently dbl 0 initialDcaProfiles criticalCase)) = ALLOCATED"
  "allocatedDCA (snd (allocateCaseIntelligently dbl 0 initialDcaProfiles criticalCase)) = Some ''DCA-001''"
  "caseId (snd (allocateCaseIntelligently dbl 0 initialDcaProfiles criticalCase)) = ''FDX-1001''"
  by (simp_all add: allocate_criticalCase caseId_criticalCase)

lemma first_query:
  "slaStatus dbl (Some fedexSession) 604800001 afterIngest =
     Inr (afterIngest
           \<lparr>caseRegistry := [(snd (allocateCaseIntelligently exact 0 initialDcaProfiles criticalCase))
                               \<lparr>slaBreached := True\<rparr>],
            dcaProfiles := penalise (snd (allocateCaseIntelligently exact 0 initialDcaProfiles criticalCase))
                             (dcaProfiles afterIngest)\<rparr>,
          [\<lparr>e_caseId = ''FDX-1001'', e_priority = CRITICAL, e_allocatedDCA = Some ''DCA-001'',
            e_slaDeadlines = \<lparr>firstAction = 86400000, followUp = 172800000, resolution = 604800000\<rparr>,
            breached = True, hoursRemaining = 0\<rparr>])"
proof -
  let ?c = "snd (allocateCaseIntelligently exact 0 initialDcaProfiles criticalCase)"
  have "priority ?c = CRITICAL"
    by (simp add: allocate_criticalCase criticalCase_fields)
  with slaForEach_single_breached [of ?c _ 604800001 dbl "dcaProfiles afterIngest"]
    allocated_criticalCase [of exact]
  show ?thesis
    by (simp add: slaStatus_def afterIngest_cases)
qed

lemma after_first_query:
  "afterSlaStatus dbl (Some fedexSession) 604800001 afterIngest =
     afterIngest
       \<lparr>caseRegistry := [(snd (allocateCaseIntelligently exact 0 initialDcaProfiles criticalCase))
                           \<lparr>slaBreached := True\<rparr>],
        dcaProfiles := penalise (snd (allocateCaseIntelligently exact 0 initialDcaProfiles criticalCase))
                         (dcaProfiles afterIngest)\<rparr>"
  by (simp add: afterSlaStatus_def first_query)

lemma after_second_query:
  "afterSlaStatus dbl (Some fedexSession) 604800001
     (afterSlaStatus dbl (Some fedexSession) 604800001 afterIngest) =
     afterIngest
       \<lparr>caseRegistry := [(snd (allocateCaseIntelligently exact 0 initialDcaProfiles criticalCase))
                           \<lparr>slaBreached := True\<rparr>],
        dcaProfiles :=
          penalise (snd (allocateCaseIntelligently exact 0 initialDcaProfiles criticalCase))
            (penalise (snd (allocateCaseIntelligently exact 0 initialDcaProfiles criticalCase))
               (dcaProfiles afterIngest))\<rparr>"
proof -
  let ?c = "snd (allocateCaseIntelligently exact 0 initialDcaProfiles criticalCase)"
  have "resolution \<lparr>firstAction = 86400000, followUp = 172800000, resolution = 604800000\<rparr>
          < (604800001 :: int)"
    by simp
  from slaForEach_single_twice [OF allocated_criticalCase(1) _ this, of exact dbl "dcaProfiles afterIngest"]
  have "slaForEach dbl 604800001 [?c\<lparr>slaBreached := True\<rparr>] (penalise ?c (dcaProfiles afterIngest))
      = ([?c\<lparr>slaBreached := True\<rparr>], penalise ?c (penalise ?c (dcaProfiles afterIngest)),
         [\<lparr>e_caseId = caseId ?c, e_priority = priority ?c, e_allocatedDCA = allocatedDCA ?c,
           e_slaDeadlines = \<lparr>firstAction = 86400000, followUp = 172800000, resolution = 604800000\<rparr>,
           breached = True, hoursRemaining = 0\<rparr>])"
    by (simp add: allocated_criticalCase(2))
  then show ?thesis
    unfolding after_first_query by (simp add: afterSlaStatus_def slaStatus_def)
qed

lemma penalise_allocated:
  "penalise (snd (allocateCaseIntelligently dbl 0 initialDcaProfiles criticalCase)) reg
     = updateDca ''DCA-001'' (\<lambda>d. d\<lparr>slaBreaches := slaBreaches d + 1\<rparr>) reg"
  by (simp add: penalise_def allocated_criticalCase)

subsection \<open>Scores and the candidate list\<close>



subsection \<open>Capacity\<close>

text \<open>
  Claim C3. An allocation either writes nothing, or it assigns the case to an agent whose
  load was below its capacity and adds the case to that agent's load and case list. The
  agents scored are exactly those that do not have \<open>load >= capacity\<close>. When every agent
  is saturated no agent is chosen and neither the registry nor the case changes; the case
  created by an intake then keeps a null agent reference, null deadlines and the status
  \<open>RECEIVED\<close>, and the registry is the one before the intake.
\<close>

theorem saturated_agents_are_never_chosen:
  "(allocateCaseIntelligently dbl now reg c = (reg, c)
      \<or> (\<exists>i<length reg. currentLoad (reg ! i) < capacity (reg ! i)
            \<and> allocatedDCA (snd (allocateCaseIntelligently dbl now reg c)) = Some (dcaId (reg ! i))
            \<and> fst (allocateCaseIntelligently dbl now reg c)
                = reg[i := (reg ! i)\<lparr>currentLoad := currentLoad (reg ! i) + 1,
                                     cases := cases (reg ! i) @ [caseId c]\<rparr>]))
   \<and> map cd_dcaId (candidateDetails (scan dbl c reg))
       = map dcaId (filter (\<lambda>d. \<not> capacity d \<le> currentLoad d) reg)
   \<and> ((\<forall>d\<in>set reg. capacity d \<le> currentLoad d) \<longrightarrow>
         bestDCA (scan dbl c reg) = None \<and> allocateCaseIntelligently dbl now reg c = (reg, c))
   \<and> ((\<forall>d\<in>set (dcaProfiles st). capacity d \<le> currentLoad d) \<and> s_role s = FEDEX \<longrightarrow>
         (\<exists>st'. ingest dbl (Some s) b now random st = Inr st'
               \<and> dcaProfiles st' = dcaProfiles st
               \<and> allocatedDCA (last (caseRegistry st')) = None
               \<and> slaDeadlines (last (caseRegistry st')) = None
               \<and> status (last (caseRegistry st')) = RECEIVED))"
proof -
  have first: "allocateCaseIntelligently dbl now reg c = (reg, c)
      \<or> (\<exists>i<length reg. currentLoad (reg ! i) < capacity (reg ! i)
            \<and> allocatedDCA (snd (allocateCaseIntelligently dbl now reg c)) = Some (dcaId (reg ! i))
            \<and> fst (allocateCaseIntelligently dbl now reg c)
                = reg[i := (reg ! i)\<lparr>currentLoad := currentLoad (reg ! i) + 1,
                                     cases := cases (reg ! i) @ [caseId c]\<rparr>])"
  proof (cases "bestDCA (scan dbl c reg)")
    case None
    then show ?thesis by (simp add: allocate_none)
  next
    case (Some i)
    from scan_origin [OF Some] have "i < length reg" "currentLoad (reg ! i) < capacity (reg ! i)"
      by (simp_all add: hasCapacity_def)
    then show ?thesis
      unfolding allocate_some [OF Some] by auto
  qed
  have "(\<lambda>d. \<not> capacity d \<le> currentLoad d) = hasCapacity"
    by (auto simp: hasCapacity_def)
  then have second: "map cd_dcaId (candidateDetails (scan dbl c reg))
       = map dcaId (filter (\<lambda>d. \<not> capacity d \<le> currentLoad d) reg)"
    by (simp add: scan_def forEachDca_candidates comp_def)
  have third: "bestDCA (scan dbl c reg) = None \<and> allocateCaseIntelligently dbl now reg c = (reg, c)"
    if "\<forall>d\<in>set reg. capacity d \<le> currentLoad d"
    using saturated_no_capacity [OF that] by (simp add: scan_full allocate_none)
  have fourth: "\<exists>st'. ingest dbl (Some s) b now random st = Inr st'
               \<and> dcaProfiles st' = dcaProfiles st
               \<and> allocatedDCA (last (caseRegistry st')) = None
               \<and> slaDeadlines (last (caseRegistry st')) = None
               \<and> status (last (caseRegistry st')) = RECEIVED"
    if "\<forall>d\<in>set (dcaProfiles st). capacity d \<le> currentLoad d" "s_role s = FEDEX"
    by (simp add: ingest_saturated [OF that(2,1)] newCase_def Let_def)
  from first second third fourth show ?thesis by blast
qed

theorem saturated_agents_are_never_chosen_witness:
  "list_all (\<lambda>d. capacity d \<le> currentLoad d) fullRegistry
   \<and> dcaProfiles fullState = fullRegistry
   \<and> s_role fedexSession = FEDEX
   \<and> allocateCaseIntelligently exact 0 fullRegistry criticalCase = (fullRegistry, criticalCase)
   \<and> (\<exists>st'. ingest exact (Some fedexSession) criticalBody 0 (1 / 2) fullState = Inr st'
           \<and> dcaProfiles st' = fullRegistry
           \<and> allocatedDCA (last (caseRegistry st')) = None
           \<and> slaDeadlines (last (caseRegistry st')) = None)"
proof -
  have h1: "list_all (\<lambda>d. capacity d \<le> currentLoad d) fullRegistry"
    by (simp add: fullRegistry_def)
  have d: "dcaProfiles fullState = fullRegistry"
    by (simp add: fullState_def)
  have h3: "s_role fedexSession = FEDEX"
    by (simp add: fedexSession_def)
  from h1 have h1': "\<forall>d\<in>set fullRegistry. capacity d \<le> currentLoad d"
    by (simp add: list_all_iff)
  with d have h2: "\<forall>d\<in>set (dcaProfiles fullState). capacity d \<le> currentLoad d"
    by simp
  from saturated_agents_are_never_chosen
    [of exact 0 fullRegistry criticalCase fullState fedexSession criticalBody "1 / 2"] h1' h2 h3
  have "allocateCaseIntelligently exact 0 fullRegistry criticalCase = (fullRegistry, criticalCase)"
    and "\<exists>st'. ingest exact (Some fedexSession) criticalBody 0 (1 / 2) fullState = Inr st'
           \<and> dcaProfiles st' = dcaProfiles fullState
           \<and> allocatedDCA (last (caseRegistry st')) = None
           \<and> slaDeadlines (last (caseRegistry st')) = None
           \<and> status (last (caseRegistry st')) = RECEIVED"
    by blast+
  with h1 h3 d show ?thesis by auto
qed

subsection \<open>Deadlines\<close>

text \<open>
  Claim C7. The deadlines are written by the allocation that chooses an agent. Whenever the
  allocation at time \<open>now\<close> chooses an agent, it sets the three deadlines of the case to
  \<open>now\<close> plus the offsets of its tier (CRITICAL 24h/2d/7d, HIGH 48h/3d/15d, MEDIUM
  72h/4d/20d, LOW 96h/7d/30d), and the first-action deadline is before the follow-up
  deadline, which is before the resolution deadline. When it chooses none, the deadlines of
  the case stay as they were.
\<close>

theorem deadlines_follow_tier_offsets:
  "(\<forall>i. bestDCA (scan dbl c reg) = Some i \<longrightarrow>
      (\<exists>sd a b r.
           slaDeadlines (snd (allocateCaseIntelligently dbl now reg c)) = Some sd
         \<and> spec_offsets (spec_tier (debtAmount c) (debtAge c)) = (a, b, r)
         \<and> firstAction sd = now + a \<and> followUp sd = now + b \<and> resolution sd = now + r
         \<and> firstAction sd < followUp sd \<and> followUp sd < resolution sd))
   \<and> (bestDCA (scan dbl c reg) = None \<longrightarrow>
        slaDeadlines (snd (allocateCaseIntelligently dbl now reg c)) = slaDeadlines c)"
proof -
  have "\<exists>sd a b r.
           slaDeadlines (snd (allocateCaseIntelligently dbl now reg c)) = Some sd
         \<and> spec_offsets (spec_tier (debtAmount c) (debtAge c)) = (a, b, r)
         \<and> firstAction sd = now + a \<and> followUp sd = now + b \<and> resolution sd = now + r
         \<and> firstAction sd < followUp sd \<and> followUp sd < resolution sd"
    if b: "bestDCA (scan dbl c reg) = Some i" for i
  proof -
    have sd: "slaDeadlines (snd (allocateCaseIntelligently dbl now reg c)) = Some (setDeadlines now c)"
      by (simp add: allocate_some [OF b])
    show ?thesis
      by (cases "spec_tier (debtAmount c) (debtAge c)")
        (simp_all add: sd setDeadlines_def priorityNames_assessRisk spec_offsets_def hours_def days_def)
  qed
  then show ?thesis by (auto simp: allocate_none)
qed

theorem deadlines_follow_tier_offsets_witness:
  "bestDCA (scan exact criticalCase initialDcaProfiles) = Some 0
   \<and> spec_tier (debtAmount criticalCase) (debtAge criticalCase) = CRITICAL
   \<and> slaDeadlines (snd (allocateCaseIntelligently exact 1000 initialDcaProfiles criticalCase))
       = Some \<lparr>firstAction = 86401000, followUp = 172801000, resolution = 604801000\<rparr>"
proof -
  note b = best_criticalCase [of exact]
  have t: "spec_tier (debtAmount criticalCase) (debtAge criticalCase) = CRITICAL"
    by (simp add: criticalCase_fields spec_tier_def)
  from deadlines_follow_tier_offsets [of exact criticalCase initialDcaProfiles 1000] b
  have "\<exists>sd a b r.
           slaDeadlines (snd (allocateCaseIntelligently exact 1000 initialDcaProfiles criticalCase)) = Some sd
         \<and> spec_offsets (spec_tier (debtAmount criticalCase) (debtAge criticalCase)) = (a, b, r)
         \<and> firstAction sd = 1000 + a \<and> followUp sd = 1000 + b \<and> resolution sd = 1000 + r
         \<and> firstAction sd < followUp sd \<and> followUp sd < resolution sd"
    by blast
  with b t show ?thesis by (auto simp: spec_offsets_def hours_def days_def)
qed

subsection \<open>Breach evaluation\<close>

text \<open>
  Claim C4 at a failing input. The case \<open>FDX-1001\<close> is allocated to \<open>DCA-001\<close> at time 0
  with the resolution deadline 604800000. Two status queries at time 604800001 find it
  breached and unresolved, and the breach counter of \<open>DCA-001\<close> goes from 0 to 1 and from 1
  to 2: the same breach is counted by every evaluation.
\<close>

theorem breach_counted_on_every_evaluation:
  "map slaBreaches (dcaProfiles afterIngest) = [0, 1, 0, 0]
   \<and> map slaBreaches (dcaProfiles (afterSlaStatus exact (Some fedexSession) 604800001 afterIngest))
       = [1, 1, 0, 0]
   \<and> map slaBreaches
        (dcaProfiles (afterSlaStatus exact (Some fedexSession) 604800001
                       (afterSlaStatus exact (Some fedexSession) 604800001 afterIngest)))
       = [2, 1, 0, 0]"
proof -
  have a: "map slaBreaches (dcaProfiles afterIngest) = [0, 1, 0, 0]"
    by (simp add: afterIngest_dcas initialDcaProfiles_def)
  have b: "map slaBreaches (dcaProfiles (afterSlaStatus exact (Some fedexSession) 604800001 afterIngest))
       = [1, 1, 0, 0]"
    by (simp add: after_first_query penalise_allocated afterIngest_dcas)
      (simp add: initialDcaProfiles_def)
  have c: "map slaBreaches
        (dcaProfiles (afterSlaStatus exact (Some fedexSession) 604800001
                       (afterSlaStatus exact (Some fedexSession) 604800001 afterIngest)))
       = [2, 1, 0, 0]"
    by (simp add: after_second_query penalise_allocated afterIngest_dcas)
      (simp add: initialDcaProfiles_def)
  from a b c show ?thesis by simp
qed

lemma slaForEach_entries:
  "slaForEach dbl now cs reg = (cs', reg', es) \<Longrightarrow> e \<in> set es \<Longrightarrow>
     0 \<le> hoursRemaining e \<and> breached e = (resolution (e_slaDeadlines e) < now)
       \<and> (breached e \<longrightarrow> hoursRemaining e = 0)"
proof (induction cs arbitrary: reg cs' reg' es)
  case Nil
  then show ?case by simp
next
  case (Cons c cs)
  show ?case
  proof (cases "slaDeadlines c")
    case None
    with Cons show ?thesis by (auto split: prod.splits)
  next
    case (Some sd)
    show ?thesis
    proof (cases "status c = RESOLVED")
      case True
      with Some Cons show ?thesis by (auto split: prod.splits)
    next
      case False
      let ?reg1 = "if now > resolution sd then penalise c reg else reg"
      let ?h = "toFixed 1 (max 0 (heldQuotient dbl (real_of_int (resolution sd - now)) 3600000))"
      let ?e = "\<lparr>e_caseId = caseId c, e_priority = priority c,
                 e_allocatedDCA = allocatedDCA c, e_slaDeadlines = sd,
                 breached = now > resolution sd, hoursRemaining = ?h\<rparr>"
      obtain cs1 reg1 es1 where r: "slaForEach dbl now cs ?reg1 = (cs1, reg1, es1)"
        by (cases "slaForEach dbl now cs ?reg1") auto
      from Cons.prems(1) Some False r have es: "es = ?e # es1"
        by (auto simp: Let_def)
      show ?thesis
      proof (cases "e \<in> set es1")
        case True
        with Cons.IH [OF r] show ?thesis by simp
      next
        case False
        with es Cons.prems(2) have e: "e = ?e" by simp
        have "0 \<le> ?h" by (rule toFixed_nonneg) simp
        moreover have "?h = 0" if "resolution sd < now"
          by (simp only: overdue_clamped [OF that] toFixed_zero)
        ultimately show ?thesis
          unfolding e by simp
      qed
    qed
  qed
qed

text \<open>
  Claim C10. Every entry of a status query has \<open>hoursRemaining >= 0\<close>; its \<open>breached\<close>
  flag says that \<open>now\<close> is past the resolution deadline, and a breached entry has
  \<open>hoursRemaining = 0\<close>.
\<close>

theorem hours_remaining_never_negative:
  assumes "slaStatus dbl sess now st = Inr (st', es)" and "e \<in> set es"
  shows "0 \<le> hoursRemaining e
       \<and> breached e = (resolution (e_slaDeadlines e) < now)
       \<and> (breached e \<longrightarrow> hoursRemaining e = 0)"
proof -
  obtain cs1 reg1 es1 where r: "slaForEach dbl now (caseRegistry st) (dcaProfiles st) = (cs1, reg1, es1)"
    by (cases "slaForEach dbl now (caseRegistry st) (dcaProfiles st)") auto
  with assms(1) have "es = es1"
    by (auto simp: slaStatus_def split: option.splits)
  with slaForEach_entries [OF r] assms(2) show ?thesis by simp
qed

theorem hours_remaining_never_negative_witness:
  "\<exists>st' e. slaStatus exact (Some fedexSession) 604800001 afterIngest = Inr (st', [e])
      \<and> resolution (e_slaDeadlines e) = 604800000
      \<and> breached e \<and> hoursRemaining e = 0 \<and> 0 \<le> hoursRemaining e"
proof -
  let ?e = "\<lparr>e_caseId = ''FDX-1001'', e_priority = CRITICAL, e_allocatedDCA = Some ''DCA-001'',
            e_slaDeadlines = \<lparr>firstAction = 86400000, followUp = 172800000, resolution = 604800000\<rparr>,
            breached = True, hoursRemaining = 0\<rparr>"
  from hours_remaining_never_negative [OF first_query, of ?e]
  have "0 \<le> hoursRemaining ?e \<and> breached ?e \<and> hoursRemaining ?e = 0" by simp
  with first_query [of exact] show ?thesis by simp
qed

subsection \<open>Lifecycle\<close>

lemma getCase_id: "getCase k cs = Some c \<Longrightarrow> caseId c = k"
  by (auto simp: getCase_def dest: find_Some_iff [THEN iffD1])

lemma getCase_updateCase:
  "getCase k cs = Some c \<Longrightarrow> caseId (f c) = k \<Longrightarrow> getCase k (updateCase k f cs) = Some (f c)"
  by (induction cs) (auto simp: getCase_def split: if_splits)

lemma caseId_interact: "caseId (interact s ty det res now hour c) = caseId c"
  by (simp add: interact_def Let_def)

lemma status_interact: "status (interact s ty det res now hour c) = IN_PROGRESS"
  by (simp add: interact_def Let_def)

lemma afterResolve_cases:
  "caseRegistry afterResolve =
     [resolved dcaSession ''RECOVERED'' (Some 5000) ''paid'' 1
        (snd (allocateCaseIntelligently exact 0 initialDcaProfiles criticalCase))]"
  by (simp add: afterResolve_def resolve_def getCase_def afterIngest_cases allocated_criticalCase)

lemma afterResolve_get:
  "getCase ''FDX-1001'' (caseRegistry afterResolve) =
     Some (resolved dcaSession ''RECOVERED'' (Some 5000) ''paid'' 1
        (snd (allocateCaseIntelligently exact 0 initialDcaProfiles criticalCase)))"
  by (simp add: afterResolve_cases getCase_def resolved_def allocated_criticalCase)

text \<open>
  Claim C5, as the code has it. No handler looks at the status of the case it changes, and
  there is no error for a refused transition: on a case whose status is \<open>RESOLVED\<close>,
  logging an interaction succeeds and sets \<open>IN_PROGRESS\<close>, escalating succeeds and sets
  \<open>ESCALATED\<close>, and resolving again succeeds, keeps \<open>RESOLVED\<close> and writes the resolution
  again.
\<close>

theorem resolved_cases_accept_every_transition:
  assumes "getCase k (caseRegistry st) = Some c" and "status c = RESOLVED"
  shows "(\<exists>st'. logInteraction (Some s) k ty det res now hour st = Inr st'
            \<and> map_option status (getCase k (caseRegistry st')) = Some IN_PROGRESS)
       \<and> (\<exists>st'. escalate (Some s) k rsn targetRole now st = Inr st'
            \<and> map_option status (getCase k (caseRegistry st')) = Some ESCALATED)
       \<and> (\<exists>st'. resolve (Some s) k rt amount notes now st = Inr st'
            \<and> map_option status (getCase k (caseRegistry st')) = Some RESOLVED
            \<and> map_option resolvedAt (getCase k (caseRegistry st')) = Some (Some now))"
proof -
  from assms(1) have k: "caseId c = k" by (rule getCase_id)
  have "getCase k (updateCase k (interact s ty det res now hour) (caseRegistry st))
      = Some (interact s ty det res now hour c)"
    using assms(1) k by (simp add: getCase_updateCase caseId_interact)
  then have a: "\<exists>st'. logInteraction (Some s) k ty det res now hour st = Inr st'
            \<and> map_option status (getCase k (caseRegistry st')) = Some IN_PROGRESS"
    using assms(1) by (simp add: logInteraction_def status_interact)
  have "getCase k (updateCase k (escalated s rsn targetRole now) (caseRegistry st))
      = Some (escalated s rsn targetRole now c)"
    using assms(1) k by (simp add: getCase_updateCase escalated_def)
  then have b: "\<exists>st'. escalate (Some s) k rsn targetRole now st = Inr st'
            \<and> map_option status (getCase k (caseRegistry st')) = Some ESCALATED"
    using assms(1) by (simp add: escalate_def escalated_def)
  have "getCase k (updateCase k (resolved s rt amount notes now) (caseRegistry st))
      = Some (resolved s rt amount notes now c)"
    using assms(1) k by (simp add: getCase_updateCase resolved_def)
  then have c: "\<exists>st'. resolve (Some s) k rt amount notes now st = Inr st'
            \<and> map_option status (getCase k (caseRegistry st')) = Some RESOLVED
            \<and> map_option resolvedAt (getCase k (caseRegistry st')) = Some (Some now)"
    using assms(1) by (simp add: resolve_def resolved_def)
  from a b c show ?thesis by blast
qed

theorem resolved_cases_accept_every_transition_witness:
  "map status (caseRegistry afterResolve) = [RESOLVED]
   \<and> (\<exists>st'. escalate (Some dcaSession) ''FDX-1001'' ''late'' ''ADMIN'' 2 afterResolve = Inr st'
         \<and> map_option status (getCase ''FDX-1001'' (caseRegistry st')) = Some ESCALATED)"
proof -
  have r: "status (resolved dcaSession ''RECOVERED'' (Some 5000) ''paid'' 1
        (snd (allocateCaseIntelligently exact 0 initialDcaProfiles criticalCase))) = RESOLVED"
    by (simp add: resolved_def)
  from resolved_cases_accept_every_transition [OF afterResolve_get r]
  show ?thesis by (simp add: afterResolve_cases r)
qed

text \<open>
  Claim C5 as stated has the escalation of a resolved case fail and keep its status. The
  case \<open>FDX-1001\<close>, resolved at time 1 and escalated at time 2, is \<open>ESCALATED\<close>.
\<close>

theorem escalation_of_a_resolved_case_succeeds:
  "map status (caseRegistry afterResolve) = [RESOLVED]
   \<and> \<not> isl (escalate (Some dcaSession) ''FDX-1001'' ''late'' ''ADMIN'' 2 afterResolve)
   \<and> map status
        (caseRegistry (projr (escalate (Some dcaSession) ''FDX-1001'' ''late'' ''ADMIN'' 2 afterResolve)))
       = [ESCALATED]"
  by (simp add: escalate_def afterResolve_get)
    (simp add: afterResolve_cases resolved_def escalated_def allocated_criticalCase)

subsection \<open>Classification and status\<close>

lemma newCase_classified:
  "status (newCase s b now random n) = RECEIVED"
  "priority (newCase s b now random n) = spec_tier (b_debtAmount b) (b_debtAge b)"
  "recoveryProbability (newCase s b now random n)
     = calculateRecoveryProbability (b_debtAmount b) (b_debtAge b) random"
  by (simp_all add: newCase_def Let_def priorityNames_assessRisk)

lemma allocate_status:
  "status (snd (allocateCaseIntelligently dbl now reg c))
     = (if bestDCA (scan dbl c reg) = None then status c else ALLOCATED)"
  by (cases "bestDCA (scan dbl c reg)") (simp_all add: allocate_none allocate_some)

lemma prioritizeCase_status:
  "q_status (prioritizeCase dbl now random qc) = PRIORITIZED"
  "q_priority (prioritizeCase dbl now random qc) \<noteq> None"
  "q_recoveryProbability (prioritizeCase dbl now random qc) \<noteq> None"
  by (simp_all add: prioritizeCase_def Let_def)

text \<open>
  Claim C8 at a failing input. The intake of the DCA platform API classifies while it builds
  the case and leaves the status \<open>RECEIVED\<close> (\<open>newCase_classified\<close>); the allocation that
  follows sets \<open>ALLOCATED\<close> when it chooses an agent and leaves the status as it is
  otherwise (\<open>allocate_status\<close>), so this server never sets \<open>PRIORITIZED\<close>. The intake of a
  case of amount 150000 and age 10 classifies it CRITICAL with the recovery probability
  49/72 and the status \<open>RECEIVED\<close>; on the server whose only agent is saturated the
  registered case is classified, unallocated and \<open>RECEIVED\<close>, and on the fresh server it is
  \<open>ALLOCATED\<close>. In the queue-based server \<open>prioritizeCase\<close> takes the received case to
  \<open>PRIORITIZED\<close> (\<open>prioritizeCase_status\<close>).
\<close>

theorem classified_case_is_still_received:
  "priority criticalCase = CRITICAL
   \<and> recoveryProbability criticalCase = Num (49 / 72)
   \<and> status criticalCase = RECEIVED
   \<and> map status (caseRegistry (projr (ingest exact (Some fedexSession) criticalBody 0 (1 / 2) fullState)))
       = [RECEIVED]
   \<and> map priority (caseRegistry (projr (ingest exact (Some fedexSession) criticalBody 0 (1 / 2) fullState)))
       = [CRITICAL]
   \<and> map allocatedDCA (caseRegistry (projr (ingest exact (Some fedexSession) criticalBody 0 (1 / 2) fullState)))
       = [None]
   \<and> map status (caseRegistry afterIngest) = [ALLOCATED]
   \<and> q_status oldCase = RECEIVED
   \<and> q_status (prioritizeCase exact 0 0 oldCase) = PRIORITIZED"
proof -
  have h2: "\<forall>d\<in>set (dcaProfiles fullState). capacity d \<le> currentLoad d"
    by (simp add: fullState_def fullRegistry_def)
  have h3: "s_role fedexSession = FEDEX"
    by (simp add: fedexSession_def)
  have "newCase fedexSession criticalBody 0 (1 / 2) (Suc (caseIdCounter fullState))
      = criticalCase\<lparr>caseId := ''FDX-1006''\<rparr>"
    by (simp add: criticalCase_def newCase_def Let_def fullState_def string_of_nat.simps)
  moreover have "caseRegistry fullState = []"
    by (simp add: fullState_def)
  moreover have "q_status oldCase = RECEIVED"
    by (simp add: oldCase_def)
  ultimately show ?thesis
    by (simp add: ingest_saturated [OF h3 h2] criticalCase_fields afterIngest_cases
        allocated_criticalCase prioritizeCase_status)
qed

subsection \<open>Tiers\<close>

lemma prioritizeCase_tiers:
  "q_priority (prioritizeCase dbl now random c) =
     Some (if \<not> gtj (q_debtAmount c) (Num 100000) \<and> gtj (q_debtAge c) (Num 180) then HIGH
           else spec_tier (q_debtAmount c) (q_debtAge c))"
  by (cases "q_debtAge c") (simp_all add: prioritizeCase_def spec_tier_def Let_def)

lemma assessRisk_examples:
  "priorityNames ! assessRisk (Num 150000) (Num 10) = CRITICAL"
  "priorityNames ! assessRisk (Num 30000) (Num 65) = MEDIUM"
  by (simp_all add: assessRisk_def priorityNames_def)

text \<open>
  Claim C6 at a failing input. \<open>assessRisk\<close> follows the thresholds of the claim for every
  amount and age (\<open>priorityNames_assessRisk\<close>). \<open>prioritizeCase\<close> of the queue-based server
  tests \<open>debtAmount > 100000\<close> alone for CRITICAL: a case of amount 1000 and age 200 gets
  HIGH where the thresholds give CRITICAL.
\<close>

theorem prioritizeCase_age_over_180_is_high:
  "q_debtAmount oldCase = Num 1000 \<and> q_debtAge oldCase = Num 200
   \<and> q_priority (prioritizeCase exact 0 0 oldCase) = Some HIGH
   \<and> spec_tier (q_debtAmount oldCase) (q_debtAge oldCase) = CRITICAL
   \<and> priorityNames ! assessRisk (q_debtAmount oldCase) (q_debtAge oldCase) = CRITICAL"
  by (simp add: prioritizeCase_def oldCase_def spec_tier_def assessRisk_def priorityNames_def)

subsection \<open>Load and case list\<close>

lemma loadMatchesCases_offsets: "loadMatchesCases reg = list_all (\<lambda>x. x = 0) (offsets reg)"
  by (simp add: loadMatchesCases_def offsets_def list_all_iff)

lemma workloadMatchesCases_offsets:
  "workloadMatchesCases wl = list_all (\<lambda>(k, x). x = 0) (workloadOffsets wl)"
  by (auto simp: workloadMatchesCases_def workloadOffsets_def list_all_iff)

lemma map_updateDca:
  "(\<And>d. g (f d) = g d) \<Longrightarrow> map g (updateDca k f reg) = map g reg"
  by (induction reg) simp_all

lemma map_penalise:
  "(\<And>d n. g (d\<lparr>slaBreaches := n\<rparr>) = g d) \<Longrightarrow> map g (penalise c reg) = map g reg"
  by (simp add: penalise_def map_updateDca split: option.splits)

lemma map_creditRecovery:
  "(\<And>d x. g (d\<lparr>recoveredAmount := x\<rparr>) = g d) \<Longrightarrow>
     map g (creditRecovery c amount reg) = map g reg"
  by (simp add: creditRecovery_def map_updateDca split: option.splits)

lemma map_ingest:
  assumes "\<And>d n cs. g (d\<lparr>currentLoad := n, cases := cs\<rparr>) = g d"
    and "ingest dbl sess b now random st = Inr st'"
  shows "map g (dcaProfiles st') = map g (dcaProfiles st)"
proof -
  from assms(2) obtain s where s: "sess = Some s" "s_role s = FEDEX"
    by (auto simp: ingest_def split: option.splits if_splits)
  let ?r = "allocateCaseIntelligently dbl now (dcaProfiles st) (newCase s b now random (Suc (caseIdCounter st)))"
  from assms(2) s have "dcaProfiles st' = fst ?r"
    by (auto simp: ingest_def Let_def split: prod.splits)
  with allocate_keeps [of g, OF assms(1)] show ?thesis by simp
qed

lemma map_resolve:
  assumes "\<And>d x. g (d\<lparr>recoveredAmount := x\<rparr>) = g d"
    and "resolve sess k rt amount notes now st = Inr st'"
  shows "map g (dcaProfiles st') = map g (dcaProfiles st)"
  using assms(2) map_creditRecovery [of g, OF assms(1)]
  by (auto simp: resolve_def split: option.splits)

lemma map_slaForEach:
  assumes "\<And>d n. g (d\<lparr>slaBreaches := n\<rparr>) = g d"
  shows "slaForEach dbl now cs reg = (cs', reg', es) \<Longrightarrow> map g reg' = map g reg"
proof (induction cs arbitrary: reg cs' reg' es)
  case Nil
  then show ?case by simp
next
  case (Cons c cs)
  show ?case
  proof (cases "slaDeadlines c")
    case None
    with Cons show ?thesis by (auto split: prod.splits)
  next
    case (Some sd)
    show ?thesis
    proof (cases "status c = RESOLVED")
      case True
      with Some Cons show ?thesis by (auto split: prod.splits)
    next
      case False
      let ?reg1 = "if now > resolution sd then penalise c reg else reg"
      obtain cs1 reg1 es1 where r: "slaForEach dbl now cs ?reg1 = (cs1, reg1, es1)"
        by (cases "slaForEach dbl now cs ?reg1") auto
      from Cons.prems Some False r have "reg' = reg1" by (auto simp: Let_def)
      with Cons.IH [OF r] show ?thesis by (simp add: map_penalise [of g, OF assms])
    qed
  qed
qed

lemma map_slaStatus:
  assumes "\<And>d n. g (d\<lparr>slaBreaches := n\<rparr>) = g d"
    and "slaStatus dbl sess now st = Inr (st', es)"
  shows "map g (dcaProfiles st') = map g (dcaProfiles st)"
proof -
  obtain cs1 reg1 es1 where r: "slaForEach dbl now (caseRegistry st) (dcaProfiles st) = (cs1, reg1, es1)"
    by (cases "slaForEach dbl now (caseRegistry st) (dcaProfiles st)") auto
  with assms(2) have "dcaProfiles st' = reg1"
    by (auto simp: slaStatus_def split: option.splits)
  with map_slaForEach [of g, OF assms(1) r] show ?thesis by simp
qed

text \<open>
  The identifiers of the registry, in their order, are those it starts with: no handler
  adds, removes or reorders an agent.
\<close>

lemma registry_ids_fixed:
  "ingest dbl sess b now random st = Inr st' \<Longrightarrow> map dcaId (dcaProfiles st') = map dcaId (dcaProfiles st)"
  "resolve sess k rt amount notes now st = Inr st' \<Longrightarrow>
     map dcaId (dcaProfiles st') = map dcaId (dcaProfiles st)"
  "slaStatus dbl sess now st = Inr (st', es) \<Longrightarrow> map dcaId (dcaProfiles st') = map dcaId (dcaProfiles st)"
  by (simp_all add: map_ingest map_resolve map_slaStatus)

lemma offsets_allocate: "offsets (fst (allocateCaseIntelligently dbl now reg c)) = offsets reg"
proof (cases "bestDCA (scan dbl c reg)")
  case None
  then show ?thesis by (simp add: allocate_none)
next
  case (Some i)
  from scan_origin [OF Some] have "i < length reg" by simp
  then show ?thesis
    unfolding allocate_some [OF Some] offsets_def
    by (simp add: map_update list_update_same_conv)
qed

lemma offsets_ingest:
  assumes "ingest dbl sess b now random st = Inr st'"
  shows "offsets (dcaProfiles st') = offsets (dcaProfiles st)"
proof -
  from assms obtain s where s: "sess = Some s" "s_role s = FEDEX"
    by (auto simp: ingest_def split: option.splits if_splits)
  let ?r = "allocateCaseIntelligently dbl now (dcaProfiles st) (newCase s b now random (Suc (caseIdCounter st)))"
  from assms s have "dcaProfiles st' = fst ?r"
    by (auto simp: ingest_def Let_def split: prod.splits)
  then show ?thesis by (simp add: offsets_allocate)
qed

lemma offsets_resolve:
  "resolve sess k rt amount notes now st = Inr st' \<Longrightarrow>
     offsets (dcaProfiles st') = offsets (dcaProfiles st)"
  unfolding offsets_def by (rule map_resolve) simp_all

lemma offsets_slaStatus:
  "slaStatus dbl sess now st = Inr (st', es) \<Longrightarrow> offsets (dcaProfiles st') = offsets (dcaProfiles st)"
  unfolding offsets_def by (rule map_slaStatus) simp_all

lemma workloadOffsets_update:
  "(\<And>w. map_of wl k = Some w \<Longrightarrow>
        current (f w) - int (length (w_cases (f w))) = current w - int (length (w_cases w)))
     \<Longrightarrow> workloadOffsets (updateWorkload k f wl) = workloadOffsets wl"
proof (induction wl)
  case Nil
  then show ?case by simp
next
  case (Cons p wl)
  obtain k' w where p: "p = (k', w)" by (cases p)
  show ?case
  proof (cases "k' = k")
    case True
    with Cons.prems [of w] p show ?thesis by (simp add: workloadOffsets_def)
  next
    case False
    with Cons.prems p have "\<And>w. map_of wl k = Some w \<Longrightarrow>
        current (f w) - int (length (w_cases (f w))) = current w - int (length (w_cases w))"
      by simp
    from Cons.IH [OF this] False p show ?thesis by (simp add: workloadOffsets_def)
  qed
qed

lemma workloadOffsets_releaseOld:
  "releaseOld k c wl = Some wl' \<Longrightarrow> workloadOffsets wl' = workloadOffsets wl"
proof -
  have "workloadOffsets
      (updateWorkload old (\<lambda>w. w\<lparr>w_cases := remove1 k (w_cases w), current := current w - 1\<rparr>) wl)
      = workloadOffsets wl"
    if w: "map_of wl old = Some w" "k \<in> set (w_cases w)" for old w
  proof (rule workloadOffsets_update)
    fix w' assume "map_of wl old = Some w'"
    with w have "k \<in> set (w_cases w')" by simp
    then have "Suc 0 \<le> length (w_cases w')" by (cases "w_cases w'") auto
    with \<open>k \<in> set (w_cases w')\<close>
    show "current (w'\<lparr>w_cases := remove1 k (w_cases w'), current := current w' - 1\<rparr>)
          - int (length (w_cases (w'\<lparr>w_cases := remove1 k (w_cases w'), current := current w' - 1\<rparr>)))
        = current w' - int (length (w_cases w'))"
      by (simp add: length_remove1 of_nat_diff)
  qed
  then show "releaseOld k c wl = Some wl' \<Longrightarrow> workloadOffsets wl' = workloadOffsets wl"
    by (auto simp: releaseOld_def lookupWorkload_def split: option.splits if_splits)
qed

lemma workloadOffsets_manualAllocate:
  assumes "manualAllocate k target now qs = Inr qs'"
  shows "workloadOffsets (dcaWorkload qs') = workloadOffsets (dcaWorkload qs)"
proof -
  from assms obtain c wl where c: "getQCase k (q_caseRegistry qs) = Some c"
    and wl: "releaseOld k c (dcaWorkload qs) = Some wl"
    by (auto simp: manualAllocate_def split: option.splits lookup.splits)
  from assms c wl have "dcaWorkload qs' =
      updateWorkload target (\<lambda>w. w\<lparr>w_cases := w_cases w @ [k], current := current w + 1\<rparr>) wl"
    by (auto simp: manualAllocate_def Let_def split: lookup.splits)
  then show ?thesis
    by (simp add: workloadOffsets_update workloadOffsets_releaseOld [OF wl])
qed

text \<open>When the manual allocation throws, counter and list have also changed together.\<close>

lemma workloadOffsets_manualAllocate_thrown:
  assumes "manualAllocate k target now qs = Inl (TypeError qs')"
  shows "workloadOffsets (dcaWorkload qs') = workloadOffsets (dcaWorkload qs)"
proof -
  from assms obtain c where c: "getQCase k (q_caseRegistry qs) = Some c"
    by (auto simp: manualAllocate_def split: option.splits)
  show ?thesis
  proof (cases "releaseOld k c (dcaWorkload qs)")
    case None
    with assms c have "qs' = qs"
      by (auto simp: manualAllocate_def split: lookup.splits)
    then show ?thesis by simp
  next
    case (Some wl)
    with assms c have "dcaWorkload qs' = wl"
      by (auto simp: manualAllocate_def Let_def split: lookup.splits)
    with workloadOffsets_releaseOld [OF Some] show ?thesis by simp
  qed
qed

lemma initialQueueState_alloc:
  "manualAllocate ''FDX-1001'' ''DCA-004'' 5 initialQueueState =
     Inr \<lparr>q_caseRegistry = [oldCase\<lparr>q_status := ALLOCATED, q_allocatedDCA := Some ''DCA-004'',
                                     allocatedAt := Some 5\<rparr>],
          dcaWorkload =
            [(''DCA-001'', \<lparr>w_capacity = 5, current = 2, w_cases = []\<rparr>),
             (''DCA-002'', \<lparr>w_capacity = 5, current = 1, w_cases = []\<rparr>),
             (''DCA-003'', \<lparr>w_capacity = 5, current = 3, w_cases = []\<rparr>),
             (''DCA-004'', \<lparr>w_capacity = 5, current = 1, w_cases = [''FDX-1001'']\<rparr>)]\<rparr>"
  by (simp add: manualAllocate_def initialQueueState_def initialDcaWorkload_def getQCase_def
      oldCase_def releaseOld_def lookupWorkload_def)

lemma queueState_eq:
  "queueState =
     \<lparr>q_caseRegistry = [oldCase\<lparr>q_status := ALLOCATED, q_allocatedDCA := Some ''DCA-004'',
                                 allocatedAt := Some 5\<rparr>],
      dcaWorkload =
        [(''DCA-001'', \<lparr>w_capacity = 5, current = 2, w_cases = []\<rparr>),
         (''DCA-002'', \<lparr>w_capacity = 5, current = 1, w_cases = []\<rparr>),
         (''DCA-003'', \<lparr>w_capacity = 5, current = 3, w_cases = []\<rparr>),
         (''DCA-004'', \<lparr>w_capacity = 5, current = 1, w_cases = [''FDX-1001'']\<rparr>)]\<rparr>"
  by (simp add: queueState_def initialQueueState_alloc)

text \<open>
  The manual allocation of \<open>FDX-1001\<close> to the inherited key \<open>toString\<close> after its allocation
  to \<open>DCA-004\<close>: the case is released from \<open>DCA-004\<close> and rewritten, and the handler throws.
\<close>

lemma queueState_toString:
  "manualAllocate ''FDX-1001'' ''toString'' 6 queueState =
     Inl (TypeError
       \<lparr>q_caseRegistry = [oldCase\<lparr>q_status := ALLOCATED, q_allocatedDCA := Some ''toString'',
                                   allocatedAt := Some 6\<rparr>],
        dcaWorkload = initialDcaWorkload\<rparr>)"
  by (simp add: queueState_eq manualAllocate_def getQCase_def oldCase_def releaseOld_def
      lookupWorkload_def inheritedKeys_def initialDcaWorkload_def)

lemma queueState_realloc:
  "manualAllocate ''FDX-1001'' ''DCA-001'' 6 queueState =
     Inr \<lparr>q_caseRegistry = [oldCase\<lparr>q_status := ALLOCATED, q_allocatedDCA := Some ''DCA-001'',
                                     allocatedAt := Some 6\<rparr>],
          dcaWorkload =
            [(''DCA-001'', \<lparr>w_capacity = 5, current = 3, w_cases = [''FDX-1001'']\<rparr>),
             (''DCA-002'', \<lparr>w_capacity = 5, current = 1, w_cases = []\<rparr>),
             (''DCA-003'', \<lparr>w_capacity = 5, current = 3, w_cases = []\<rparr>),
             (''DCA-004'', \<lparr>w_capacity = 5, current = 0, w_cases = []\<rparr>)]\<rparr>"
  by (simp add: queueState_eq manualAllocate_def getQCase_def oldCase_def releaseOld_def
      lookupWorkload_def)

lemma workloadOffsets_allocateCase:
  "workloadOffsets (snd (snd (allocateCase dbl rnd now c wl))) = workloadOffsets wl"
  by (simp add: allocateCase_def workloadOffsets_update split: prod.splits option.splits)

text \<open>
  Claim C9, as the code has it. Every operation changes the load counter and the case list
  of an agent together: the allocation, the intake, the resolution and the status query of
  the DCA platform API and the allocation and the manual reallocation of the queue-based
  server, also when the manual reallocation throws after the release, leave
  \<open>load - |case list|\<close> of every agent as it was. The registry of the DCA platform API
  starts with load 0 and no cases, so there \<open>load = |case list|\<close> in every state; the
  workload table of the queue-based server starts with the loads 2, 1, 3, 0 and no cases.
\<close>

theorem load_and_case_list_change_together:
  "offsets (fst (allocateCaseIntelligently dbl now reg c)) = offsets reg
   \<and> (\<forall>st'. ingest dbl sess b now random st = Inr st' \<longrightarrow>
          offsets (dcaProfiles st') = offsets (dcaProfiles st))
   \<and> (\<forall>st'. resolve sess k rt amount notes now st = Inr st' \<longrightarrow>
          offsets (dcaProfiles st') = offsets (dcaProfiles st))
   \<and> (\<forall>st' es. slaStatus dbl sess now st = Inr (st', es) \<longrightarrow>
          offsets (dcaProfiles st') = offsets (dcaProfiles st))
   \<and> (\<forall>qs'. manualAllocate k target now qs = Inr qs' \<longrightarrow>
          workloadOffsets (dcaWorkload qs') = workloadOffsets (dcaWorkload qs))
   \<and> workloadOffsets (snd (snd (allocateCase dbl rnd now qc wl))) = workloadOffsets wl
   \<and> offsets initialDcaProfiles = [0, 0, 0, 0]
   \<and> loadMatchesCases initialDcaProfiles
   \<and> loadMatchesCases reg = list_all (\<lambda>x. x = 0) (offsets reg)
   \<and> workloadMatchesCases (dcaWorkload qs)
       = list_all (\<lambda>(a, x). x = 0) (workloadOffsets (dcaWorkload qs))
   \<and> workloadOffsets initialDcaWorkload
       = [(''DCA-001'', 2), (''DCA-002'', 1), (''DCA-003'', 3), (''DCA-004'', 0)]
   \<and> (\<forall>qs'. manualAllocate k target now qs = Inl (TypeError qs') \<longrightarrow>
          workloadOffsets (dcaWorkload qs') = workloadOffsets (dcaWorkload qs))"
proof -
  have init: "offsets initialDcaProfiles = [0, 0, 0, 0]"
    by (simp add: offsets_def initialDcaProfiles_def)
  then have "loadMatchesCases initialDcaProfiles"
    by (simp add: loadMatchesCases_offsets)
  moreover have "workloadOffsets initialDcaWorkload
       = [(''DCA-001'', 2), (''DCA-002'', 1), (''DCA-003'', 3), (''DCA-004'', 0)]"
    by (simp add: workloadOffsets_def initialDcaWorkload_def)
  ultimately show ?thesis
    using init offsets_allocate [of dbl now reg c] offsets_ingest [of dbl sess b now random st]
      offsets_resolve [of sess k rt amount "notes" now st] offsets_slaStatus [of dbl sess now st]
      workloadOffsets_manualAllocate [of k target now qs]
      workloadOffsets_manualAllocate_thrown [of k target now qs]
      workloadOffsets_allocateCase [of dbl rnd now qc wl]
      loadMatchesCases_offsets [of reg] workloadMatchesCases_offsets [of "dcaWorkload qs"]
    by blast
qed

theorem load_and_case_list_change_together_witness:
  "(\<exists>qs'. manualAllocate ''FDX-1001'' ''DCA-001'' 6 queueState = Inr qs'
        \<and> workloadOffsets (dcaWorkload qs') = workloadOffsets (dcaWorkload queueState)
        \<and> tableView (dcaWorkload qs')
             = [(''DCA-001'', 3, [''FDX-1001'']), (''DCA-002'', 1, []), (''DCA-003'', 3, []),
                (''DCA-004'', 0, [])])
   \<and> tableView (dcaWorkload queueState)
        = [(''DCA-001'', 2, []), (''DCA-002'', 1, []), (''DCA-003'', 3, []),
           (''DCA-004'', 1, [''FDX-1001''])]"
proof -
  have "\<forall>qs'. manualAllocate ''FDX-1001'' ''DCA-001'' 6 queueState = Inr qs' \<longrightarrow>
          workloadOffsets (dcaWorkload qs') = workloadOffsets (dcaWorkload queueState)"
    by (rule load_and_case_list_change_together
        [THEN conjunct2, THEN conjunct2, THEN conjunct2, THEN conjunct2, THEN conjunct1])
  with queueState_realloc
  have "workloadOffsets (dcaWorkload
      \<lparr>q_caseRegistry = [oldCase\<lparr>q_status := ALLOCATED, q_allocatedDCA := Some ''DCA-001'',
                                     allocatedAt := Some 6\<rparr>],
          dcaWorkload =
            [(''DCA-001'', \<lparr>w_capacity = 5, current = 3, w_cases = [''FDX-1001'']\<rparr>),
             (''DCA-002'', \<lparr>w_capacity = 5, current = 1, w_cases = []\<rparr>),
             (''DCA-003'', \<lparr>w_capacity = 5, current = 3, w_cases = []\<rparr>),
             (''DCA-004'', \<lparr>w_capacity = 5, current = 0, w_cases = []\<rparr>)]\<rparr>)
       = workloadOffsets (dcaWorkload queueState)"
    by blast
  with queueState_realloc show ?thesis by (simp add: queueState_eq tableView_def)
qed

text \<open>
  Claim C9 as stated has \<open>load = |case list|\<close> before and after every reallocation. In the
  queue-based server, before and after the first manual allocation of \<open>FDX-1001\<close> to
  \<open>DCA-004\<close>, the agent \<open>DCA-001\<close> has load 2 and no case.
\<close>

theorem queue_table_starts_with_loads_and_no_cases:
  "tableView (dcaWorkload initialQueueState)
     = [(''DCA-001'', 2, []), (''DCA-002'', 1, []), (''DCA-003'', 3, []), (''DCA-004'', 0, [])]
   \<and> \<not> workloadMatchesCases (dcaWorkload initialQueueState)
   \<and> tableView
        (dcaWorkload (projr (manualAllocate ''FDX-1001'' ''DCA-004'' 5 initialQueueState)))
     = [(''DCA-001'', 2, []), (''DCA-002'', 1, []), (''DCA-003'', 3, []),
        (''DCA-004'', 1, [''FDX-1001''])]
   \<and> \<not> workloadMatchesCases
         (dcaWorkload (projr (manualAllocate ''FDX-1001'' ''DCA-004'' 5 initialQueueState)))"
  by (simp add: initialQueueState_alloc workloadMatchesCases_def tableView_def)
    (simp add: initialQueueState_def initialDcaWorkload_def)

end
